theory Spec2Isabelle
  imports Main "HOL-Library.Multiset"
begin

section \<open>License blacklist scanner: the aggregation pipeline of \<open>src/index.ts\<close>\<close>

subsection \<open>Data model\<close>

text \<open>
  A JavaScript string is modelled as a \<open>string\<close>, a list of characters. The code compares
  strings for equality, concatenates them, splits one at commas and replaces the space
  character; none of this depends on how wide a character is.
\<close>

text \<open>
  One package entry of a repository's SBOM, as \<open>run\<close> destructures it:
  \<open>{ name, versionInfo, licenseConcluded }\<close>, each field possibly \<open>undefined\<close>.
\<close>

record SbomPackage =
  pkg_name :: "string option"
  versionInfo :: "string option"
  licenseConcluded :: "string option"

text \<open>\<open>interface PackageData { name; version; license }\<close>\<close>

record PackageData =
  name :: string
  version :: string
  license :: string

text \<open>
  \<open>interface MappedPackageData { repo; version }\<close>. The second field is called
  \<open>at_version\<close> here, since \<open>version\<close> is the field of \<open>PackageData\<close>.
\<close>

record MappedPackageData =
  repo :: string
  at_version :: string

text \<open>An element of \<open>pkgsByRepo\<close>: \<open>{ repo: name, packages: [...] }\<close>.\<close>

record RepoResult =
  of_repo :: string
  packages :: "PackageData list"

text \<open>
  A JavaScript \<open>Map\<close> iterates in insertion order, so it is an association list:
  \<open>set\<close> on a key that is present replaces the value where it stands, \<open>set\<close> on a new
  key appends the entry at the end.
\<close>

type_synonym ('k, 'v) js_map = "('k \<times> 'v) list"

definition Map_has :: "('k, 'v) js_map \<Rightarrow> 'k \<Rightarrow> bool" where
  "Map_has m k = (map_of m k \<noteq> None)"

definition Map_get :: "('k, 'v) js_map \<Rightarrow> 'k \<Rightarrow> 'v option" where
  "Map_get m k = map_of m k"

fun Map_set :: "('k, 'v) js_map \<Rightarrow> 'k \<Rightarrow> 'v \<Rightarrow> ('k, 'v) js_map" where
  "Map_set [] k v = [(k, v)]"
| "Map_set ((k', v') # m) k v =
     (if k' = k then (k, v) # m else (k', v') # Map_set m k v)"

text \<open>\<open>type PackageDataMap = Map<string, Map<string, MappedPackageData[]>>\<close>\<close>

type_synonym LicenseMap = "(string, MappedPackageData list) js_map"
type_synonym PackageDataMap = "(string, LicenseMap) js_map"

text \<open>
  A promise that has settled: rejected with an error, or fulfilled with a value.
\<close>

datatype js_error = Error string

datatype 'a promise = Rejected js_error | Fulfilled 'a

text \<open>\<open>p.then(f)\<close> for a handler that does not throw.\<close>

definition then_p :: "'a promise \<Rightarrow> ('a \<Rightarrow> 'b) \<Rightarrow> 'b promise" where
  "then_p p f = (case p of Rejected e \<Rightarrow> Rejected e | Fulfilled x \<Rightarrow> Fulfilled (f x))"

text \<open>\<open>p.catch(h)\<close>: the handler's own outcome settles the new promise.\<close>

definition catch_p :: "'a promise \<Rightarrow> (js_error \<Rightarrow> 'a promise) \<Rightarrow> 'a promise" where
  "catch_p p h = (case p of Rejected e \<Rightarrow> h e | Fulfilled x \<Rightarrow> Fulfilled x)"

text \<open>
  \<open>Promise.all\<close>: fulfilled with all the values, in order, when every promise is
  fulfilled, and rejected otherwise.
\<close>

fun promise_all :: "'a promise list \<Rightarrow> 'a list promise" where
  "promise_all [] = Fulfilled []"
| "promise_all (Rejected e # ps) = Rejected e"
| "promise_all (Fulfilled x # ps) =
     (case promise_all ps of Rejected e \<Rightarrow> Rejected e | Fulfilled xs \<Rightarrow> Fulfilled (x # xs))"

subsection \<open>License resolution\<close>

text \<open>
  The registry client \<open>packageJson(pkgName, { fullMetadata: true, version })\<close> is an
  external collaborator: a function from the package name and the optional version to
  a settled promise of the metadata, of which the code reads the \<open>license\<close> field only.
\<close>

type_synonym registry = "string \<Rightarrow> string option \<Rightarrow> string option promise"

text \<open>
  \<open>resolveLicenseFromNPM\<close>:
  \<open>.then((pkgJson) => pkgJson.license ?? "Unknown").catch(() => "Unknown")\<close>
\<close>

definition resolveLicenseFromNPM :: "registry \<Rightarrow> string \<Rightarrow> string option \<Rightarrow> string promise" where
  "resolveLicenseFromNPM packageJson pkgName ver =
     catch_p
       (then_p (packageJson pkgName ver)
          (\<lambda>lic. case lic of Some l \<Rightarrow> l | None \<Rightarrow> ''Unknown''))
       (\<lambda>_. Fulfilled ''Unknown'')"

text \<open>\<open>s.replace(/ /g, "-")\<close>\<close>

definition replace_spaces :: "string \<Rightarrow> string" where
  "replace_spaces s = map (\<lambda>c. if c = CHR '' '' then CHR ''-'' else c) s"

subsection \<open>SBOM ingestion\<close>

text \<open>The filter \<open>pkg.name && pkg.versionInfo !== "main"\<close>: a name is truthy when it is
  a non-empty string.\<close>

definition keep_package :: "SbomPackage \<Rightarrow> bool" where
  "keep_package pkg =
     ((case pkg_name pkg of None \<Rightarrow> False | Some n \<Rightarrow> n \<noteq> [])
      \<and> versionInfo pkg \<noteq> Some ''main'')"

text \<open>\<open>name as string\<close>; the filter has removed the entries without a name.\<close>

definition name_as_string :: "SbomPackage \<Rightarrow> string" where
  "name_as_string pkg = (case pkg_name pkg of Some n \<Rightarrow> n | None \<Rightarrow> [])"

text \<open>
  The expression \<open>licenseConcluded ?? (await resolveLicenseFromNPM(name, versionInfo))\<close>.
  The first component is the list of registry queries issued while evaluating it:
  \<open>??\<close> evaluates its right operand only when the left one is \<open>null\<close> or \<open>undefined\<close>.
\<close>

definition declared_or_fallback ::
  "registry \<Rightarrow> SbomPackage \<Rightarrow> (string \<times> string option) list \<times> string promise" where
  "declared_or_fallback packageJson pkg =
     (case licenseConcluded pkg of
        Some declared \<Rightarrow> ([], Fulfilled declared)
      | None \<Rightarrow>
          ([(name_as_string pkg, versionInfo pkg)],
           resolveLicenseFromNPM packageJson (name_as_string pkg) (versionInfo pkg)))"

text \<open>
  The body of the \<open>async\<close> callback mapped over the kept entries: the license with its
  spaces replaced, and \<open>versionInfo ?? "Missing version data"\<close>.
\<close>

definition resolve_package ::
  "registry \<Rightarrow> SbomPackage \<Rightarrow> (string \<times> string option) list \<times> PackageData promise" where
  "resolve_package packageJson pkg =
     (let (queries, concluded) = declared_or_fallback packageJson pkg
      in (queries,
          then_p concluded
            (\<lambda>l. \<lparr>name = name_as_string pkg,
                   version = (case versionInfo pkg of Some v \<Rightarrow> v
                              | None \<Rightarrow> ''Missing version data''),
                   license = replace_spaces l\<rparr>)))"

text \<open>
  \<open>Promise.all(res.data.sbom.packages.filter(...).map(async ...))\<close>, with the registry
  queries of all callbacks collected.
\<close>

definition ingest_packages ::
  "registry \<Rightarrow> SbomPackage list \<Rightarrow> (string \<times> string option) list \<times> PackageData list promise" where
  "ingest_packages packageJson pkgs =
     (let rs = map (resolve_package packageJson) (filter keep_package pkgs)
      in (concat (map fst rs), promise_all (map snd rs)))"

text \<open>
  One repository: the SBOM request, whose failure is rethrown as
  \<open>failed to retrieve repos for org ${orgName}\<close>, then the ingestion of its packages.
\<close>

definition ingest_repo ::
  "registry \<Rightarrow> string \<Rightarrow> string \<Rightarrow> SbomPackage list promise \<Rightarrow> RepoResult promise" where
  "ingest_repo packageJson orgName repo_name sbom =
     (case catch_p sbom
             (\<lambda>_. Rejected (Error (''failed to retrieve repos for org '' @ orgName))) of
        Rejected e \<Rightarrow> Rejected e
      | Fulfilled pkgs \<Rightarrow>
          then_p (snd (ingest_packages packageJson pkgs))
            (\<lambda>ps. \<lparr>of_repo = repo_name, packages = ps\<rparr>))"

text \<open>\<open>pkgsByRepo\<close>: \<open>Promise.all\<close> over the repositories of the organisation.\<close>

definition ingest_all ::
  "registry \<Rightarrow> string \<Rightarrow> (string \<times> SbomPackage list promise) list \<Rightarrow> RepoResult list promise" where
  "ingest_all packageJson orgName repos =
     promise_all (map (\<lambda>(repo_name, sbom). ingest_repo packageJson orgName repo_name sbom) repos)"

subsection \<open>Blacklist\<close>

text \<open>\<open>licenseBlacklist.split(",")\<close>\<close>

fun split_on :: "char \<Rightarrow> string \<Rightarrow> string list" where
  "split_on sep [] = [[]]"
| "split_on sep (c # cs) =
     (if c = sep then [] # split_on sep cs
      else (case split_on sep cs of w # ws \<Rightarrow> (c # w) # ws | [] \<Rightarrow> [[c]]))"

definition parse_blacklist :: "string \<Rightarrow> string list" where
  "parse_blacklist licenseBlacklist = split_on CHR '','' licenseBlacklist"

subsection \<open>Aggregation\<close>

text \<open>
  \<open>insertPkgIntoMap\<close>. The inner maps and the arrays are created here and reached
  through their key only, so mutating one in place is a \<open>set\<close> of the updated value
  under the same key. \<open>map.get(name)?.has(license)\<close> is \<open>undefined\<close> when the name is
  missing, and \<open>?.set\<close> and \<open>?.push\<close> do nothing then.
\<close>

definition insertPkgIntoMap :: "string \<Rightarrow> PackageData \<Rightarrow> PackageDataMap \<Rightarrow> PackageDataMap" where
  "insertPkgIntoMap r pkg m =
     (let m1 = (if \<not> Map_has m (name pkg) then Map_set m (name pkg) [] else m);
          m2 = (if \<not> (case Map_get m1 (name pkg) of None \<Rightarrow> False
                       | Some lm \<Rightarrow> Map_has lm (license pkg))
                then (case Map_get m1 (name pkg) of None \<Rightarrow> m1
                      | Some lm \<Rightarrow> Map_set m1 (name pkg) (Map_set lm (license pkg) []))
                else m1)
      in (case Map_get m2 (name pkg) of None \<Rightarrow> m2
          | Some lm \<Rightarrow>
              (case Map_get lm (license pkg) of None \<Rightarrow> m2
               | Some occs \<Rightarrow>
                   Map_set m2 (name pkg)
                     (Map_set lm (license pkg)
                        (occs @ [\<lparr>repo = r, at_version = version pkg\<rparr>])))))"

text \<open>
  The body of the inner \<open>forEach\<close>; the state is the pair \<open>(blacklistMap, noLicenseMap)\<close>.
\<close>

definition aggregate_pkg ::
  "string list \<Rightarrow> string \<Rightarrow> PackageDataMap \<times> PackageDataMap \<Rightarrow> PackageData
   \<Rightarrow> PackageDataMap \<times> PackageDataMap" where
  "aggregate_pkg blacklist r st pkg =
     (let blacklistMap = fst st; noLicenseMap = snd st;
          noLicenseMap' = (if license pkg = ''Unknown''
                           then insertPkgIntoMap r pkg noLicenseMap else noLicenseMap);
          blacklistMap' = (if license pkg \<in> set blacklist
                           then insertPkgIntoMap r pkg blacklistMap else blacklistMap)
      in (blacklistMap', noLicenseMap'))"

definition aggregate_repo ::
  "string list \<Rightarrow> PackageDataMap \<times> PackageDataMap \<Rightarrow> RepoResult
   \<Rightarrow> PackageDataMap \<times> PackageDataMap" where
  "aggregate_repo blacklist st res = foldl (aggregate_pkg blacklist (of_repo res)) st (packages res)"

text \<open>\<open>pkgsByRepo.forEach(...)\<close> from the two empty maps.\<close>

definition aggregate :: "string list \<Rightarrow> RepoResult list \<Rightarrow> PackageDataMap \<times> PackageDataMap" where
  "aggregate blacklist pkgsByRepo = foldl (aggregate_repo blacklist) ([], []) pkgsByRepo"

subsection \<open>Report rendering\<close>

text \<open>
  \<open>arraifyMap\<close>: \<open>Array.from\<close> lists a map's entries in insertion order. The fields
  \<open>name\<close> and \<open>license\<close> of the resulting objects are called \<open>entry_name\<close> and
  \<open>entry_license\<close> here.
\<close>

record LicenseEntry =
  entry_license :: string
  repos :: "MappedPackageData list"

record PackageEntry =
  entry_name :: string
  licenses :: "LicenseEntry list"

definition arraifyMap :: "PackageDataMap \<Rightarrow> PackageEntry list" where
  "arraifyMap m =
     map (\<lambda>(k, v). \<lparr>entry_name = k,
                     licenses = map (\<lambda>(k, v). \<lparr>entry_license = k, repos = v\<rparr>) v\<rparr>) m"

text \<open>\<open>Array.prototype.join\<close> on an array of strings.\<close>

fun js_join :: "string \<Rightarrow> string list \<Rightarrow> string" where
  "js_join sep [] = []"
| "js_join sep [x] = x"
| "js_join sep (x # y # ys) = x @ sep @ js_join sep (y # ys)"

text \<open>An array of strings inside a template literal is joined with commas.\<close>

definition array_to_string :: "string list \<Rightarrow> string" where
  "array_to_string xs = js_join '','' xs"

datatype pkgsCategory = blacklisted | missing

definition category_text :: "pkgsCategory \<Rightarrow> string" where
  "category_text c = (case c of blacklisted \<Rightarrow> ''blacklisted'' | missing \<Rightarrow> ''missing'')"

text \<open>The callbacks of \<open>generateMDFromPkgs\<close>: a repository link, and the row at index
  \<open>idx\<close> of a package's licenses.\<close>

definition md_link :: "string \<Rightarrow> MappedPackageData \<Rightarrow> string" where
  "md_link orgUrl occ =
     ''[```'' @ repo occ @ ''```]('' @ orgUrl @ ''/'' @ repo occ @ '') @ '' @ at_version occ"

definition md_row :: "string \<Rightarrow> nat \<Rightarrow> string \<Rightarrow> string list \<Rightarrow> string" where
  "md_row nm idx lic links =
     (if idx < 1
      then ''| ```'' @ nm @ ''``` | '' @ lic @ '' | '' @ array_to_string links @ '' |''
      else ''| | '' @ lic @ '' | '' @ array_to_string links @ '' |'')"

definition md_rows :: "string \<Rightarrow> PackageEntry \<Rightarrow> string list" where
  "md_rows orgUrl e =
     map (\<lambda>(idx, lic, links). md_row (entry_name e) idx lic links)
       (enumerate 0
          (map (\<lambda>le. (entry_license le, map (md_link orgUrl) (repos le))) (licenses e)))"

definition generateMDFromPkgs ::
  "string \<Rightarrow> PackageEntry list \<Rightarrow> PackageEntry list \<Rightarrow> pkgsCategory \<Rightarrow> string" where
  "generateMDFromPkgs orgUrl blacklistPkgs noLicensePkgs pkgsCategory =
     ''### Dependencies with '' @ category_text pkgsCategory @ '' licenses\<newline>'' @
     ''| Package Name | License | Repositories Affected |\<newline>'' @
     ''| --- | --- | --- |\<newline>'' @
     js_join ''\<newline>''
       (map (\<lambda>e. js_join ''\<newline>'' (md_rows orgUrl e))
          (if pkgsCategory = blacklisted then blacklistPkgs else noLicensePkgs)) @
     ''\<newline>\<newline>'' @
     ''Please remove these dependencies.''"

text \<open>The callbacks of \<open>generateSlackMdFromPkgs\<close>.\<close>

definition slack_link :: "string \<Rightarrow> MappedPackageData \<Rightarrow> string" where
  "slack_link orgUrl occ =
     ''`'' @ repo occ @ ''` (<'' @ orgUrl @ ''/'' @ repo occ @ ''|link>) @ '' @ at_version occ"

definition slack_row :: "string \<Rightarrow> nat \<Rightarrow> string \<Rightarrow> string list \<Rightarrow> string" where
  "slack_row nm idx lic links =
     (if idx < 1
      then ''*'' @ nm @ '' - '' @ lic @ ''*\<newline> - '' @ array_to_string links
      else ''- '' @ array_to_string links)"

definition slack_rows :: "string \<Rightarrow> PackageEntry \<Rightarrow> string list" where
  "slack_rows orgUrl e =
     map (\<lambda>(idx, lic, links). slack_row (entry_name e) idx lic links)
       (enumerate 0
          (map (\<lambda>le. (entry_license le, map (slack_link orgUrl) (repos le))) (licenses e)))"

definition generateSlackMdFromPkgs ::
  "string \<Rightarrow> PackageEntry list \<Rightarrow> PackageEntry list \<Rightarrow> pkgsCategory \<Rightarrow> string" where
  "generateSlackMdFromPkgs orgUrl blacklistPkgs noLicensePkgs pkgsCategory =
     ''Dependencies with '' @ category_text pkgsCategory @ '' licenses:\<newline>\<newline>'' @
     js_join ''\<newline>\<newline>''
       (map (\<lambda>e. js_join ''\<newline>'' (slack_rows orgUrl e))
          (if pkgsCategory = blacklisted then blacklistPkgs else noLicensePkgs)) @
     ''\<newline>\<newline>'' @
     ''Please remove these dependencies.''"

text \<open>
  Report assembly: \<open>mdComponents\<close> starts as the banner, a section is pushed for each
  non-empty array, and the components are joined with \<open>"\n\n"\<close>.
\<close>

definition md_banner :: string where
  "md_banner = ''```license-scanner``` has detected dependency licensing issues:''"

definition slack_banner :: string where
  "slack_banner = ''*License Blacklist Scanner Results*''"

definition mdProblems :: "string \<Rightarrow> PackageDataMap \<Rightarrow> PackageDataMap \<Rightarrow> string" where
  "mdProblems orgUrl blacklistMap noLicenseMap =
     (let blacklistPkgs = arraifyMap blacklistMap;
          noLicensePkgs = arraifyMap noLicenseMap;
          mdComponents = [md_banner];
          mdComponents1 =
            (if length blacklistPkgs > 0
             then mdComponents @ [generateMDFromPkgs orgUrl blacklistPkgs noLicensePkgs blacklisted]
             else mdComponents);
          mdComponents2 =
            (if length noLicensePkgs > 0
             then mdComponents1 @ [generateMDFromPkgs orgUrl blacklistPkgs noLicensePkgs missing]
             else mdComponents1)
      in js_join ''\<newline>\<newline>'' mdComponents2)"

definition slackMdProblems :: "string \<Rightarrow> PackageDataMap \<Rightarrow> PackageDataMap \<Rightarrow> string" where
  "slackMdProblems orgUrl blacklistMap noLicenseMap =
     (let blacklistPkgs = arraifyMap blacklistMap;
          noLicensePkgs = arraifyMap noLicenseMap;
          slackMdComponents = [slack_banner];
          slackMdComponents1 =
            (if length blacklistPkgs > 0
             then slackMdComponents
                  @ [generateSlackMdFromPkgs orgUrl blacklistPkgs noLicensePkgs blacklisted]
             else slackMdComponents);
          slackMdComponents2 =
            (if length noLicensePkgs > 0
             then slackMdComponents1
                  @ [generateSlackMdFromPkgs orgUrl blacklistPkgs noLicensePkgs missing]
             else slackMdComponents1)
      in js_join ''\<newline>\<newline>'' slackMdComponents2)"

subsection \<open>Observations on an aggregation map\<close>

text \<open>The top-level keys, the license keys under a package name, and the occurrences
  stored under a package name and a license, each in insertion order.\<close>

definition package_keys :: "PackageDataMap \<Rightarrow> string list" where
  "package_keys m = map fst m"

definition license_keys :: "PackageDataMap \<Rightarrow> string \<Rightarrow> string list" where
  "license_keys m n = (case Map_get m n of None \<Rightarrow> [] | Some lm \<Rightarrow> map fst lm)"

definition occurrences :: "PackageDataMap \<Rightarrow> string \<Rightarrow> string \<Rightarrow> MappedPackageData list" where
  "occurrences m n l =
     (case Map_get m n of None \<Rightarrow> []
      | Some lm \<Rightarrow> (case Map_get lm l of None \<Rightarrow> [] | Some occs \<Rightarrow> occs))"

text \<open>Every finding of a run paired with its repository, in the order the two nested
  \<open>forEach\<close> loops visit them.\<close>

definition findings :: "RepoResult list \<Rightarrow> (string \<times> PackageData) list" where
  "findings pkgsByRepo =
     concat (map (\<lambda>res. map (\<lambda>pkg. (of_repo res, pkg)) (packages res)) pkgsByRepo)"

text \<open>A sequence of insertions into one map.\<close>

definition insert_all :: "PackageDataMap \<Rightarrow> (string \<times> PackageData) list \<Rightarrow> PackageDataMap" where
  "insert_all m ins = foldl (\<lambda>m (r, pkg). insertPkgIntoMap r pkg m) m ins"

text \<open>Every license key stored anywhere in a map, and the representation invariant of
  the two nested maps: no key occurs twice.\<close>

definition all_license_keys :: "PackageDataMap \<Rightarrow> string list" where
  "all_license_keys m = concat (map (\<lambda>(n, lm). map fst lm) m)"

definition unique_keys :: "PackageDataMap \<Rightarrow> bool" where
  "unique_keys m = (distinct (map fst m) \<and> (\<forall>(n, lm) \<in> set m. distinct (map fst lm)))"

text \<open>The run of the two nested \<open>forEach\<close> loops as one loop over the findings.\<close>

definition aggregate_findings ::
  "string list \<Rightarrow> (string \<times> PackageData) list \<Rightarrow> PackageDataMap \<times> PackageDataMap" where
  "aggregate_findings blacklist fs =
     foldl (\<lambda>st (r, pkg). aggregate_pkg blacklist r st pkg) ([], []) fs"

text \<open>An SBOM entry has no name when its name is absent or is the empty string; these
  are the values of \<open>pkg.name\<close> that the filter's truthiness test rejects.\<close>

definition no_name :: "SbomPackage \<Rightarrow> bool" where
  "no_name pkg = (pkg_name pkg = None \<or> pkg_name pkg = Some [])"

text \<open>The version of a finding: \<open>versionInfo ?? "Missing version data"\<close>.\<close>

definition version_or_missing :: "SbomPackage \<Rightarrow> string" where
  "version_or_missing pkg =
     (case versionInfo pkg of Some v \<Rightarrow> v | None \<Rightarrow> ''Missing version data'')"

text \<open>Sample registries: one that knows every package as MIT-licensed, one whose
  lookups all fail, and one whose metadata has no license field.\<close>

definition mit_registry :: registry where
  "mit_registry pkgName ver = Fulfilled (Some ''MIT'')"

definition failing_registry :: registry where
  "failing_registry pkgName ver = Rejected (Error ''package not found'')"

definition unlicensed_registry :: registry where
  "unlicensed_registry pkgName ver = Fulfilled None"

text \<open>The finding that the callback's promise is fulfilled with, in closed form.\<close>

definition produced_finding :: "registry \<Rightarrow> SbomPackage \<Rightarrow> PackageData" where
  "produced_finding packageJson pkg =
     \<lparr>name = name_as_string pkg,
      version = version_or_missing pkg,
      license = replace_spaces
        (case licenseConcluded pkg of
           Some declared \<Rightarrow> declared
         | None \<Rightarrow>
             (case packageJson (name_as_string pkg) (versionInfo pkg) of
                Fulfilled (Some l) \<Rightarrow> l
              | Fulfilled None \<Rightarrow> ''Unknown''
              | Rejected e \<Rightarrow> ''Unknown''))\<rparr>"

section \<open>Properties\<close>

subsection \<open>Maps\<close>

lemma map_of_Map_set: "map_of (Map_set m k v) k' = (if k' = k then Some v else map_of m k')"
  by (induction m) auto

lemma keys_Map_set:
  "map fst (Map_set m k v) = (if k \<in> set (map fst m) then map fst m else map fst m @ [k])"
  by (induction m) force+

lemma set_Map_set: "set (Map_set m k v) \<subseteq> insert (k, v) (set m)"
  by (induction m) (auto split: if_splits)

lemma distinct_Map_set: "distinct (map fst m) \<Longrightarrow> distinct (map fst (Map_set m k v))"
  by (simp add: keys_Map_set)

lemma Map_get_Nil: "Map_get [] k = None"
  by (simp add: Map_get_def)

lemma Map_get_Cons: "Map_get ((a, b) # m) k = (if a = k then Some b else Map_get m k)"
  by (auto simp add: Map_get_def)

lemma Map_set_twice: "Map_set (Map_set m k v) k w = Map_set m k w"
  by (induction m) auto

lemma Map_get_Map_set: "Map_get (Map_set m k v) k' = (if k' = k then Some v else Map_get m k')"
  by (simp add: Map_get_def map_of_Map_set)

lemma Map_get_SomeD: "Map_get m k = Some v \<Longrightarrow> (k, v) \<in> set m"
  by (simp add: Map_get_def map_of_SomeD)

lemma Map_set_same: "Map_get m k = Some v \<Longrightarrow> Map_set m k v = m"
  by (induction m) (auto simp: Map_get_def)

subsection \<open>One insertion\<close>

lemma insertPkgIntoMap_eq:
  "insertPkgIntoMap r pkg m =
     Map_set m (name pkg)
       (Map_set (case Map_get m (name pkg) of None \<Rightarrow> [] | Some lm \<Rightarrow> lm) (license pkg)
          (occurrences m (name pkg) (license pkg) @ [\<lparr>repo = r, at_version = version pkg\<rparr>]))"
  by (auto simp: insertPkgIntoMap_def Let_def Map_get_Map_set Map_get_Nil Map_get_Cons
        Map_has_def Map_get_def[symmetric] occurrences_def Map_set_twice Map_set_same
      split: option.splits)

lemma package_keys_insert:
  "package_keys (insertPkgIntoMap r pkg m) =
     (if name pkg \<in> set (package_keys m) then package_keys m else package_keys m @ [name pkg])"
  by (simp add: insertPkgIntoMap_eq package_keys_def keys_Map_set)

lemma license_keys_insert:
  "license_keys (insertPkgIntoMap r pkg m) n =
     (if n = name pkg
      then (if license pkg \<in> set (license_keys m n) then license_keys m n
            else license_keys m n @ [license pkg])
      else license_keys m n)"
  by (auto simp: insertPkgIntoMap_eq license_keys_def Map_get_Map_set keys_Map_set
      split: option.splits)

lemma occurrences_insert:
  "occurrences (insertPkgIntoMap r pkg m) n l =
     (if n = name pkg \<and> l = license pkg
      then occurrences m n l @ [\<lparr>repo = r, at_version = version pkg\<rparr>]
      else occurrences m n l)"
  by (auto simp: insertPkgIntoMap_eq occurrences_def Map_get_Map_set Map_get_Nil Map_get_Cons
      split: option.splits)

lemma unique_keys_insert:
  assumes "unique_keys m"
  shows "unique_keys (insertPkgIntoMap r pkg m)"
proof -
  let ?lm = "case Map_get m (name pkg) of None \<Rightarrow> [] | Some lm \<Rightarrow> lm"
  let ?lm' = "Map_set ?lm (license pkg)
     (occurrences m (name pkg) (license pkg) @ [\<lparr>repo = r, at_version = version pkg\<rparr>])"
  have "distinct (map fst ?lm)"
    using assms by (auto simp: unique_keys_def split: option.splits dest: Map_get_SomeD)
  then have inner: "distinct (map fst ?lm')"
    by (rule distinct_Map_set)
  have outer: "distinct (map fst (Map_set m (name pkg) ?lm'))"
    using assms by (simp add: unique_keys_def distinct_Map_set)
  have "\<forall>(n, lm) \<in> set (Map_set m (name pkg) ?lm'). distinct (map fst lm)"
    using set_Map_set[of m "name pkg" ?lm'] assms inner
    by (auto simp: unique_keys_def)
  with outer show ?thesis
    by (simp add: insertPkgIntoMap_eq unique_keys_def)
qed

lemma all_license_keys_set:
  "set (all_license_keys m) = (\<Union>(n, lm) \<in> set m. fst ` set lm)"
  by (auto simp: all_license_keys_def)

lemma all_license_keys_Map_set:
  "set (all_license_keys (Map_set m k lm)) \<subseteq> set (all_license_keys m) \<union> set (map fst lm)"
proof
  fix l assume "l \<in> set (all_license_keys (Map_set m k lm))"
  then obtain n lm' where a: "(n, lm') \<in> set (Map_set m k lm)" and b: "l \<in> fst ` set lm'"
    unfolding all_license_keys_set by blast
  from a set_Map_set[of m k lm] have "(n, lm') = (k, lm) \<or> (n, lm') \<in> set m" by blast
  then show "l \<in> set (all_license_keys m) \<union> set (map fst lm)"
    using b unfolding all_license_keys_set by auto
qed


lemma all_license_keys_insert:
  "set (all_license_keys (insertPkgIntoMap r pkg m)) \<subseteq> insert (license pkg) (set (all_license_keys m))"
proof -
  let ?lm = "case Map_get m (name pkg) of None \<Rightarrow> [] | Some lm \<Rightarrow> lm"
  let ?occs = "occurrences m (name pkg) (license pkg) @ [\<lparr>repo = r, at_version = version pkg\<rparr>]"
  have "set (map fst ?lm) \<subseteq> set (all_license_keys m)"
    unfolding all_license_keys_set
    by (cases "Map_get m (name pkg)") (auto dest!: Map_get_SomeD)
  then have "set (map fst (Map_set ?lm (license pkg) ?occs)) \<subseteq> insert (license pkg) (set (all_license_keys m))"
    by (auto simp: keys_Map_set split: if_splits)
  with all_license_keys_Map_set[of m "name pkg" "Map_set ?lm (license pkg) ?occs"]
  show ?thesis
    unfolding insertPkgIntoMap_eq by blast
qed

subsection \<open>Sequences of insertions\<close>

lemma insert_all_Nil: "insert_all m [] = m"
  by (simp add: insert_all_def)

lemma insert_all_Cons: "insert_all m ((r, pkg) # ins) = insert_all (insertPkgIntoMap r pkg m) ins"
  by (simp add: insert_all_def)

lemma insert_all_append: "insert_all m (xs @ ys) = insert_all (insert_all m xs) ys"
  by (simp add: insert_all_def)

lemma occurrences_insert_all:
  "occurrences (insert_all m ins) n l =
     occurrences m n l @
     map (\<lambda>(r, pkg). \<lparr>repo = r, at_version = version pkg\<rparr>)
       (filter (\<lambda>(r, pkg). name pkg = n \<and> license pkg = l) ins)"
proof (induction ins arbitrary: m)
  case Nil
  then show ?case by (simp add: insert_all_Nil)
next
  case (Cons x ins)
  obtain r pkg where x: "x = (r, pkg)" by (cases x)
  show ?case
    unfolding x insert_all_Cons Cons.IH
    by (auto simp: occurrences_insert)
qed

lemma package_keys_insert_all:
  "set (package_keys (insert_all m ins)) = set (package_keys m) \<union> (\<lambda>(r, pkg). name pkg) ` set ins"
proof (induction ins arbitrary: m)
  case Nil
  then show ?case by (simp add: insert_all_Nil)
next
  case (Cons x ins)
  obtain r pkg where x: "x = (r, pkg)" by (cases x)
  show ?case
    unfolding x insert_all_Cons Cons.IH
    by (auto simp: package_keys_insert)
qed

lemma license_keys_insert_all:
  "set (license_keys (insert_all m ins) n) =
     set (license_keys m n) \<union> (\<lambda>(r, pkg). license pkg) ` {x \<in> set ins. name (snd x) = n}"
proof (induction ins arbitrary: m)
  case Nil
  then show ?case by (simp add: insert_all_Nil)
next
  case (Cons x ins)
  obtain r pkg where x: "x = (r, pkg)" by (cases x)
  show ?case
    unfolding x insert_all_Cons Cons.IH
    by (auto simp: license_keys_insert)
qed

lemma unique_keys_insert_all: "unique_keys m \<Longrightarrow> unique_keys (insert_all m ins)"
proof (induction ins arbitrary: m)
  case Nil
  then show ?case by (simp add: insert_all_Nil)
next
  case (Cons x ins)
  obtain r pkg where x: "x = (r, pkg)" by (cases x)
  show ?case
    unfolding x insert_all_Cons
    by (rule Cons.IH) (rule unique_keys_insert[OF Cons.prems])
qed

lemma all_license_keys_insert_all:
  "set (all_license_keys (insert_all m ins)) \<subseteq>
     set (all_license_keys m) \<union> (\<lambda>(r, pkg). license pkg) ` set ins"
proof (induction ins arbitrary: m)
  case Nil
  then show ?case by (simp add: insert_all_Nil)
next
  case (Cons x ins)
  obtain r pkg where x: "x = (r, pkg)" by (cases x)
  show ?case
    unfolding x insert_all_Cons
    using Cons.IH[of "insertPkgIntoMap r pkg m"] all_license_keys_insert[of r pkg m]
    by auto
qed

subsection \<open>The aggregation loop\<close>

lemma aggregate_pkg_components:
  "aggregate_pkg bl r st pkg =
     (if license pkg \<in> set bl then insertPkgIntoMap r pkg (fst st) else fst st,
      if license pkg = ''Unknown'' then insertPkgIntoMap r pkg (snd st) else snd st)"
  by (simp add: aggregate_pkg_def Let_def)

lemma aggregate_findings_from:
  "foldl (\<lambda>st (r, pkg). aggregate_pkg bl r st pkg) st fs =
     (insert_all (fst st) (filter (\<lambda>(r, pkg). license pkg \<in> set bl) fs),
      insert_all (snd st) (filter (\<lambda>(r, pkg). license pkg = ''Unknown'') fs))"
proof (induction fs arbitrary: st)
  case Nil
  then show ?case by (simp add: insert_all_Nil)
next
  case (Cons x fs)
  obtain r pkg where x: "x = (r, pkg)" by (cases x)
  let ?F = "\<lambda>st (r, pkg). aggregate_pkg bl r st pkg"
  have "foldl ?F st (x # fs) = foldl ?F (aggregate_pkg bl r st pkg) fs"
    by (simp add: x)
  also have "\<dots> =
     (insert_all (fst (aggregate_pkg bl r st pkg)) (filter (\<lambda>(r, pkg). license pkg \<in> set bl) fs),
      insert_all (snd (aggregate_pkg bl r st pkg)) (filter (\<lambda>(r, pkg). license pkg = ''Unknown'') fs))"
    by (rule Cons.IH)
  also have "\<dots> =
     (insert_all (fst st) (filter (\<lambda>(r, pkg). license pkg \<in> set bl) (x # fs)),
      insert_all (snd st) (filter (\<lambda>(r, pkg). license pkg = ''Unknown'') (x # fs)))"
    by (simp add: x aggregate_pkg_components insert_all_Cons)
  finally show ?case .
qed

lemma aggregate_repo_as_findings:
  "aggregate_repo bl st res =
     foldl (\<lambda>st (r, pkg). aggregate_pkg bl r st pkg) st (map (\<lambda>pkg. (of_repo res, pkg)) (packages res))"
  by (simp add: aggregate_repo_def foldl_map)

lemma aggregate_from_as_findings:
  "foldl (aggregate_repo bl) st rs =
     foldl (\<lambda>st (r, pkg). aggregate_pkg bl r st pkg) st (findings rs)"
  by (induction rs arbitrary: st) (simp_all add: findings_def aggregate_repo_as_findings)

lemma aggregate_as_findings: "aggregate bl rs = aggregate_findings bl (findings rs)"
  by (simp add: aggregate_def aggregate_findings_def aggregate_from_as_findings)

lemma aggregate_findings_eq:
  "aggregate_findings bl fs =
     (insert_all [] (filter (\<lambda>(r, pkg). license pkg \<in> set bl) fs),
      insert_all [] (filter (\<lambda>(r, pkg). license pkg = ''Unknown'') fs))"
  by (simp add: aggregate_findings_def aggregate_findings_from)

lemma aggregate_eq:
  "aggregate bl rs =
     (insert_all [] (filter (\<lambda>(r, pkg). license pkg \<in> set bl) (findings rs)),
      insert_all [] (filter (\<lambda>(r, pkg). license pkg = ''Unknown'') (findings rs)))"
  by (simp add: aggregate_as_findings aggregate_findings_eq)

lemma occurrences_empty: "occurrences [] n l = []"
  by (simp add: occurrences_def Map_get_Nil)

lemma license_keys_empty: "license_keys [] n = []"
  by (simp add: license_keys_def Map_get_Nil)

lemma unique_keys_empty: "unique_keys []"
  by (simp add: unique_keys_def)

lemma insertPkgIntoMap_changes: "insertPkgIntoMap r pkg m \<noteq> m"
proof
  assume "insertPkgIntoMap r pkg m = m"
  then have "occurrences (insertPkgIntoMap r pkg m) (name pkg) (license pkg) =
             occurrences m (name pkg) (license pkg)"
    by simp
  then show False
    by (simp add: occurrences_insert)
qed

lemma findings_member:
  "(r, pkg) \<in> set (findings rs) \<longleftrightarrow> (\<exists>res \<in> set rs. r = of_repo res \<and> pkg \<in> set (packages res))"
  by (auto simp: findings_def)

lemma mset_findings: "mset rs' = mset rs \<Longrightarrow> mset (findings rs') = mset (findings rs)"
proof -
  assume eq: "mset rs' = mset rs"
  let ?f = "\<lambda>res. mset (map (\<lambda>pkg. (of_repo res, pkg)) (packages res))"
  have "mset (findings xs) = sum_mset (image_mset ?f (mset xs))" for xs
    by (simp add: findings_def mset_concat comp_def flip: sum_mset_sum_list)
  with eq show ?thesis by simp
qed

lemma unique_keys_distinct:
  assumes "unique_keys m"
  shows "distinct (package_keys m)" and "distinct (license_keys m n)"
  using assms
  by (auto simp: unique_keys_def package_keys_def license_keys_def
      split: option.splits dest!: Map_get_SomeD)

lemma all_license_keys_empty: "all_license_keys [] = []"
  by (simp add: all_license_keys_def)

lemma all_license_keys_filtered:
  "set (all_license_keys (insert_all [] (filter (\<lambda>(r, pkg). P (license pkg)) fs))) \<subseteq>
     {l \<in> (\<lambda>(r, pkg). license pkg) ` set fs. P l}"
proof -
  have "(\<lambda>(r, pkg). license pkg) ` set (filter (\<lambda>(r, pkg). P (license pkg)) fs)
        \<subseteq> {l \<in> (\<lambda>(r, pkg). license pkg) ` set fs. P l}"
    by auto
  moreover have "set (all_license_keys (insert_all [] (filter (\<lambda>(r, pkg). P (license pkg)) fs)))
        \<subseteq> (\<lambda>(r, pkg). license pkg) ` set (filter (\<lambda>(r, pkg). P (license pkg)) fs)"
    using all_license_keys_insert_all[of "[]" "filter (\<lambda>(r, pkg). P (license pkg)) fs"]
    by (simp only: all_license_keys_empty list.set Un_empty_left)
  ultimately show ?thesis
    by (rule order_trans[rotated])
qed


lemma occurrences_aggregate_snd:
  "occurrences (snd (aggregate bl rs)) n l =
     map (\<lambda>(r, pkg). \<lparr>repo = r, at_version = version pkg\<rparr>)
       (filter (\<lambda>(r, pkg). name pkg = n \<and> license pkg = l \<and> l = ''Unknown'') (findings rs))"
proof -
  have "filter (\<lambda>(r, pkg). name pkg = n \<and> license pkg = l)
          (filter (\<lambda>(r, pkg). license pkg = ''Unknown'') (findings rs)) =
        filter (\<lambda>(r, pkg). name pkg = n \<and> license pkg = l \<and> l = ''Unknown'') (findings rs)"
    unfolding filter_filter by (rule filter_cong) auto
  then show ?thesis
    by (simp only: aggregate_eq snd_conv occurrences_insert_all occurrences_empty append_Nil)
qed

lemma occurrences_aggregate_fst:
  "occurrences (fst (aggregate bl rs)) n l =
     map (\<lambda>(r, pkg). \<lparr>repo = r, at_version = version pkg\<rparr>)
       (filter (\<lambda>(r, pkg). name pkg = n \<and> license pkg = l \<and> l \<in> set bl) (findings rs))"
proof -
  have "filter (\<lambda>(r, pkg). name pkg = n \<and> license pkg = l)
          (filter (\<lambda>(r, pkg). license pkg \<in> set bl) (findings rs)) =
        filter (\<lambda>(r, pkg). name pkg = n \<and> license pkg = l \<and> l \<in> set bl) (findings rs)"
    unfolding filter_filter by (rule filter_cong) auto
  then show ?thesis
    by (simp only: aggregate_eq fst_conv occurrences_insert_all occurrences_empty append_Nil)
qed

subsection \<open>Claims about the aggregator\<close>

text \<open>
  C1. For every finding \<open>pkg\<close> of every repository result \<open>res\<close>, the loop body changes
  the unknown map exactly when the license is \<open>"Unknown"\<close> and the blacklist map exactly
  when the license is a member of the blacklist; after the run,
  \<open>(repo, version)\<close> is stored under \<open>unknownMap[name][license]\<close> if and only if the
  license is \<open>"Unknown"\<close>, and under \<open>blacklistMap[name][license]\<close> if and only if the
  license is on the blacklist. When \<open>"Unknown"\<close> is not a blacklist entry, a finding with
  license \<open>"Unknown"\<close> is in the unknown map, and the blacklist map has no
  \<open>"Unknown"\<close> license key and no occurrence under one.
\<close>

theorem unknown_and_blacklist_insertion:
  assumes "res \<in> set pkgsByRepo" and "pkg \<in> set (packages res)"
  shows
    "(snd (aggregate_pkg bl (of_repo res) st pkg) \<noteq> snd st \<longleftrightarrow> license pkg = ''Unknown'')
     \<and> (fst (aggregate_pkg bl (of_repo res) st pkg) \<noteq> fst st \<longleftrightarrow> license pkg \<in> set bl)
     \<and> (\<lparr>repo = of_repo res, at_version = version pkg\<rparr>
          \<in> set (occurrences (snd (aggregate bl pkgsByRepo)) (name pkg) (license pkg))
        \<longleftrightarrow> license pkg = ''Unknown'')
     \<and> (\<lparr>repo = of_repo res, at_version = version pkg\<rparr>
          \<in> set (occurrences (fst (aggregate bl pkgsByRepo)) (name pkg) (license pkg))
        \<longleftrightarrow> license pkg \<in> set bl)
     \<and> (''Unknown'' \<notin> set bl \<longrightarrow> license pkg = ''Unknown'' \<longrightarrow>
          \<lparr>repo = of_repo res, at_version = version pkg\<rparr>
            \<in> set (occurrences (snd (aggregate bl pkgsByRepo)) (name pkg) ''Unknown'')
          \<and> ''Unknown'' \<notin> set (all_license_keys (fst (aggregate bl pkgsByRepo)))
          \<and> (\<forall>n. occurrences (fst (aggregate bl pkgsByRepo)) n ''Unknown'' = []))"
proof -
  let ?occ = "\<lparr>repo = of_repo res, at_version = version pkg\<rparr>"
  have mem: "(of_repo res, pkg) \<in> set (findings pkgsByRepo)"
    using assms by (auto simp: findings_member)
  have s1: "snd (aggregate_pkg bl (of_repo res) st pkg) \<noteq> snd st \<longleftrightarrow> license pkg = ''Unknown''"
    by (simp add: aggregate_pkg_components insertPkgIntoMap_changes)
  have s2: "fst (aggregate_pkg bl (of_repo res) st pkg) \<noteq> fst st \<longleftrightarrow> license pkg \<in> set bl"
    by (simp add: aggregate_pkg_components insertPkgIntoMap_changes)
  have unk: "?occ \<in> set (occurrences (snd (aggregate bl pkgsByRepo)) (name pkg) (license pkg))
        \<longleftrightarrow> license pkg = ''Unknown''"
  proof
    assume "?occ \<in> set (occurrences (snd (aggregate bl pkgsByRepo)) (name pkg) (license pkg))"
    then show "license pkg = ''Unknown''"
      unfolding occurrences_aggregate_snd by auto
  next
    assume "license pkg = ''Unknown''"
    with mem have "(of_repo res, pkg) \<in> set (filter (\<lambda>(r, p). name p = name pkg
        \<and> license p = license pkg \<and> license pkg = ''Unknown'') (findings pkgsByRepo))"
      by simp
    then show "?occ \<in> set (occurrences (snd (aggregate bl pkgsByRepo)) (name pkg) (license pkg))"
      unfolding occurrences_aggregate_snd set_map by (rule rev_image_eqI) simp
  qed
  have blk: "?occ \<in> set (occurrences (fst (aggregate bl pkgsByRepo)) (name pkg) (license pkg))
        \<longleftrightarrow> license pkg \<in> set bl"
  proof
    assume "?occ \<in> set (occurrences (fst (aggregate bl pkgsByRepo)) (name pkg) (license pkg))"
    then show "license pkg \<in> set bl"
      unfolding occurrences_aggregate_fst by auto
  next
    assume "license pkg \<in> set bl"
    with mem have "(of_repo res, pkg) \<in> set (filter (\<lambda>(r, p). name p = name pkg
        \<and> license p = license pkg \<and> license pkg \<in> set bl) (findings pkgsByRepo))"
      by simp
    then show "?occ \<in> set (occurrences (fst (aggregate bl pkgsByRepo)) (name pkg) (license pkg))"
      unfolding occurrences_aggregate_fst set_map by (rule rev_image_eqI) simp
  qed
  have last: "''Unknown'' \<notin> set bl \<longrightarrow> license pkg = ''Unknown'' \<longrightarrow>
          ?occ \<in> set (occurrences (snd (aggregate bl pkgsByRepo)) (name pkg) ''Unknown'')
          \<and> ''Unknown'' \<notin> set (all_license_keys (fst (aggregate bl pkgsByRepo)))
          \<and> (\<forall>n. occurrences (fst (aggregate bl pkgsByRepo)) n ''Unknown'' = [])"
  proof (intro impI conjI)
    assume nb: "''Unknown'' \<notin> set bl" and u: "license pkg = ''Unknown''"
    have "?occ \<in> set (occurrences (snd (aggregate bl pkgsByRepo)) (name pkg) (license pkg))"
      using unk u by (rule iffD2)
    then show "?occ \<in> set (occurrences (snd (aggregate bl pkgsByRepo)) (name pkg) ''Unknown'')"
      by (simp only: u)
    have "set (all_license_keys (fst (aggregate bl pkgsByRepo))) \<subseteq>
            {l \<in> (\<lambda>(r, pkg). license pkg) ` set (findings pkgsByRepo). l \<in> set bl}"
      unfolding aggregate_eq fst_conv by (rule all_license_keys_filtered)
    with nb show "''Unknown'' \<notin> set (all_license_keys (fst (aggregate bl pkgsByRepo)))"
      by blast
    show "\<forall>n. occurrences (fst (aggregate bl pkgsByRepo)) n ''Unknown'' = []"
      using nb by (simp add: occurrences_aggregate_fst)
  qed
  show ?thesis
    by (intro conjI; (fact s1 | fact s2 | fact unk | fact blk | fact last))
qed


theorem unknown_and_blacklist_insertion_witness:
  "\<lparr>of_repo = ''B'',
     packages = [\<lparr>name = ''foo-lib'', version = ''2.1.0'', license = ''Unknown''\<rparr>]\<rparr>
     \<in> set [\<lparr>of_repo = ''B'',
              packages = [\<lparr>name = ''foo-lib'', version = ''2.1.0'', license = ''Unknown''\<rparr>]\<rparr>]
   \<and> \<lparr>repo = ''B'', at_version = ''2.1.0''\<rparr>
       \<in> set (occurrences
              (snd (aggregate [''GPL-3.0'']
                 [\<lparr>of_repo = ''B'',
                    packages = [\<lparr>name = ''foo-lib'', version = ''2.1.0'',
                                 license = ''Unknown''\<rparr>]\<rparr>]))
              ''foo-lib'' ''Unknown'')
   \<and> ''Unknown'' \<notin> set (all_license_keys
         (fst (aggregate [''GPL-3.0'']
            [\<lparr>of_repo = ''B'',
               packages = [\<lparr>name = ''foo-lib'', version = ''2.1.0'',
                            license = ''Unknown''\<rparr>]\<rparr>])))"
  using unknown_and_blacklist_insertion
    [of "\<lparr>of_repo = ''B'',
          packages = [\<lparr>name = ''foo-lib'', version = ''2.1.0'', license = ''Unknown''\<rparr>]\<rparr>"
        "[\<lparr>of_repo = ''B'',
           packages = [\<lparr>name = ''foo-lib'', version = ''2.1.0'', license = ''Unknown''\<rparr>]\<rparr>]"
        "\<lparr>name = ''foo-lib'', version = ''2.1.0'', license = ''Unknown''\<rparr>"
        "[''GPL-3.0'']" "([], [])"]
  by simp

lemma unique_keys_aggregate_findings:
  "unique_keys (fst (aggregate_findings bl fs))" "unique_keys (snd (aggregate_findings bl fs))"
  by (simp_all add: aggregate_findings_eq unique_keys_insert_all unique_keys_empty)

lemma occurrences_aggregate_findings_fst:
  "occurrences (fst (aggregate_findings bl fs)) n l =
     map (\<lambda>(r, pkg). \<lparr>repo = r, at_version = version pkg\<rparr>)
       (filter (\<lambda>(r, pkg). name pkg = n \<and> license pkg = l \<and> l \<in> set bl) fs)"
proof -
  have "filter (\<lambda>(r, pkg). name pkg = n \<and> license pkg = l)
          (filter (\<lambda>(r, pkg). license pkg \<in> set bl) fs) =
        filter (\<lambda>(r, pkg). name pkg = n \<and> license pkg = l \<and> l \<in> set bl) fs"
    unfolding filter_filter by (rule filter_cong) auto
  then show ?thesis
    by (simp only: aggregate_findings_eq fst_conv occurrences_insert_all occurrences_empty
        append_Nil)
qed

lemma occurrences_aggregate_findings_snd:
  "occurrences (snd (aggregate_findings bl fs)) n l =
     map (\<lambda>(r, pkg). \<lparr>repo = r, at_version = version pkg\<rparr>)
       (filter (\<lambda>(r, pkg). name pkg = n \<and> license pkg = l \<and> l = ''Unknown'') fs)"
proof -
  have "filter (\<lambda>(r, pkg). name pkg = n \<and> license pkg = l)
          (filter (\<lambda>(r, pkg). license pkg = ''Unknown'') fs) =
        filter (\<lambda>(r, pkg). name pkg = n \<and> license pkg = l \<and> l = ''Unknown'') fs"
    unfolding filter_filter by (rule filter_cong) auto
  then show ?thesis
    by (simp only: aggregate_findings_eq snd_conv occurrences_insert_all occurrences_empty
        append_Nil)
qed

lemma aggregate_findings_snoc:
  "aggregate_findings bl (fs @ [(r, pkg)]) = aggregate_pkg bl r (aggregate_findings bl fs) pkg"
  by (simp add: aggregate_findings_def)

lemma aggregate_findings_step:
  assumes "k < length fs"
  shows "aggregate_findings bl (take (Suc k) fs) =
     aggregate_pkg bl (fst (fs ! k)) (aggregate_findings bl (take k fs)) (snd (fs ! k))"
proof -
  have "take (Suc k) fs = take k fs @ [(fst (fs ! k), snd (fs ! k))]"
    using assms by (simp add: take_Suc_conv_app_nth)
  then show ?thesis
    by (simp only: aggregate_findings_snoc)
qed

lemma occurrences_aggregate_pkg:
  "occurrences (fst (aggregate_pkg bl r st pkg)) (name pkg) (license pkg) =
     occurrences (fst st) (name pkg) (license pkg)
     @ (if license pkg \<in> set bl then [\<lparr>repo = r, at_version = version pkg\<rparr>] else [])"
  "occurrences (snd (aggregate_pkg bl r st pkg)) (name pkg) (license pkg) =
     occurrences (snd st) (name pkg) (license pkg)
     @ (if license pkg = ''Unknown'' then [\<lparr>repo = r, at_version = version pkg\<rparr>] else [])"
  by (simp_all add: aggregate_pkg_components occurrences_insert)


text \<open>
  C6. After any number \<open>k\<close> of the findings of a run have been processed, both maps
  have every package name at most once as a top-level key and every license at most once
  under a package name. One insertion keeps this, and it appends \<open>(repo, version)\<close> to the
  list stored under \<open>(name, license)\<close> whether or not an equal pair is already there:
  the list after the insertion is the list before it followed by the new pair.
  In the maps of a run nothing is deduplicated: after \<open>k\<close> findings, and at the end of
  the run, the list stored under \<open>(n, l)\<close> is, in order, one \<open>(repo, version)\<close> pair for
  every finding processed so far that has name \<open>n\<close> and license \<open>l\<close> and that the map
  takes (a blacklisted license for the blacklist map, \<open>"Unknown"\<close> for the unknown
  map). Processing the next finding is one run of the loop body, and it extends the list
  under that finding's name and license by the finding's pair when the map takes it and
  leaves it as it is otherwise.
\<close>

theorem aggregation_map_invariant:
  "unique_keys (fst (aggregate_findings bl (take k (findings rs))))
   \<and> unique_keys (snd (aggregate_findings bl (take k (findings rs))))
   \<and> aggregate bl rs = aggregate_findings bl (findings rs)
   \<and> (unique_keys m \<longrightarrow>
        unique_keys (insertPkgIntoMap r pkg m)
        \<and> distinct (package_keys (insertPkgIntoMap r pkg m))
        \<and> distinct (license_keys (insertPkgIntoMap r pkg m) n))
   \<and> occurrences (insertPkgIntoMap r pkg m) (name pkg) (license pkg) =
       occurrences m (name pkg) (license pkg) @ [\<lparr>repo = r, at_version = version pkg\<rparr>]
   \<and> occurrences (fst (aggregate_findings bl (take k (findings rs)))) n l =
       map (\<lambda>(r, pkg). \<lparr>repo = r, at_version = version pkg\<rparr>)
         (filter (\<lambda>(r, pkg). name pkg = n \<and> license pkg = l \<and> l \<in> set bl)
            (take k (findings rs)))
   \<and> occurrences (snd (aggregate_findings bl (take k (findings rs)))) n l =
       map (\<lambda>(r, pkg). \<lparr>repo = r, at_version = version pkg\<rparr>)
         (filter (\<lambda>(r, pkg). name pkg = n \<and> license pkg = l \<and> l = ''Unknown'')
            (take k (findings rs)))
   \<and> occurrences (fst (aggregate bl rs)) n l =
       map (\<lambda>(r, pkg). \<lparr>repo = r, at_version = version pkg\<rparr>)
         (filter (\<lambda>(r, pkg). name pkg = n \<and> license pkg = l \<and> l \<in> set bl) (findings rs))
   \<and> occurrences (snd (aggregate bl rs)) n l =
       map (\<lambda>(r, pkg). \<lparr>repo = r, at_version = version pkg\<rparr>)
         (filter (\<lambda>(r, pkg). name pkg = n \<and> license pkg = l \<and> l = ''Unknown'') (findings rs))
   \<and> (k < length (findings rs) \<longrightarrow>
        aggregate_findings bl (take (Suc k) (findings rs)) =
          aggregate_pkg bl (fst (findings rs ! k))
            (aggregate_findings bl (take k (findings rs))) (snd (findings rs ! k))
        \<and> occurrences (fst (aggregate_findings bl (take (Suc k) (findings rs))))
            (name (snd (findings rs ! k))) (license (snd (findings rs ! k))) =
          occurrences (fst (aggregate_findings bl (take k (findings rs))))
            (name (snd (findings rs ! k))) (license (snd (findings rs ! k)))
          @ (if license (snd (findings rs ! k)) \<in> set bl
             then [\<lparr>repo = fst (findings rs ! k),
                     at_version = version (snd (findings rs ! k))\<rparr>]
             else [])
        \<and> occurrences (snd (aggregate_findings bl (take (Suc k) (findings rs))))
            (name (snd (findings rs ! k))) (license (snd (findings rs ! k))) =
          occurrences (snd (aggregate_findings bl (take k (findings rs))))
            (name (snd (findings rs ! k))) (license (snd (findings rs ! k)))
          @ (if license (snd (findings rs ! k)) = ''Unknown''
             then [\<lparr>repo = fst (findings rs ! k),
                     at_version = version (snd (findings rs ! k))\<rparr>]
             else []))"
proof (intro conjI impI)
  show "unique_keys (fst (aggregate_findings bl (take k (findings rs))))"
    by (rule unique_keys_aggregate_findings)
  show "unique_keys (snd (aggregate_findings bl (take k (findings rs))))"
    by (rule unique_keys_aggregate_findings)
  show "aggregate bl rs = aggregate_findings bl (findings rs)"
    by (rule aggregate_as_findings)
  show "occurrences (insertPkgIntoMap r pkg m) (name pkg) (license pkg) =
       occurrences m (name pkg) (license pkg) @ [\<lparr>repo = r, at_version = version pkg\<rparr>]"
    by (simp add: occurrences_insert)
  show "occurrences (fst (aggregate_findings bl (take k (findings rs)))) n l =
       map (\<lambda>(r, pkg). \<lparr>repo = r, at_version = version pkg\<rparr>)
         (filter (\<lambda>(r, pkg). name pkg = n \<and> license pkg = l \<and> l \<in> set bl)
            (take k (findings rs)))"
    by (rule occurrences_aggregate_findings_fst)
  show "occurrences (snd (aggregate_findings bl (take k (findings rs)))) n l =
       map (\<lambda>(r, pkg). \<lparr>repo = r, at_version = version pkg\<rparr>)
         (filter (\<lambda>(r, pkg). name pkg = n \<and> license pkg = l \<and> l = ''Unknown'')
            (take k (findings rs)))"
    by (rule occurrences_aggregate_findings_snd)
  show "occurrences (fst (aggregate bl rs)) n l =
       map (\<lambda>(r, pkg). \<lparr>repo = r, at_version = version pkg\<rparr>)
         (filter (\<lambda>(r, pkg). name pkg = n \<and> license pkg = l \<and> l \<in> set bl) (findings rs))"
    by (rule occurrences_aggregate_fst)
  show "occurrences (snd (aggregate bl rs)) n l =
       map (\<lambda>(r, pkg). \<lparr>repo = r, at_version = version pkg\<rparr>)
         (filter (\<lambda>(r, pkg). name pkg = n \<and> license pkg = l \<and> l = ''Unknown'') (findings rs))"
    by (rule occurrences_aggregate_snd)
next
  assume "unique_keys m"
  then show u: "unique_keys (insertPkgIntoMap r pkg m)"
    by (rule unique_keys_insert)
  from u show "distinct (package_keys (insertPkgIntoMap r pkg m))"
    by (rule unique_keys_distinct)
  from u show "distinct (license_keys (insertPkgIntoMap r pkg m) n)"
    by (rule unique_keys_distinct)
next
  assume "k < length (findings rs)"
  then show step: "aggregate_findings bl (take (Suc k) (findings rs)) =
          aggregate_pkg bl (fst (findings rs ! k))
            (aggregate_findings bl (take k (findings rs))) (snd (findings rs ! k))"
    by (rule aggregate_findings_step)
  show "occurrences (fst (aggregate_findings bl (take (Suc k) (findings rs))))
            (name (snd (findings rs ! k))) (license (snd (findings rs ! k))) =
          occurrences (fst (aggregate_findings bl (take k (findings rs))))
            (name (snd (findings rs ! k))) (license (snd (findings rs ! k)))
          @ (if license (snd (findings rs ! k)) \<in> set bl
             then [\<lparr>repo = fst (findings rs ! k),
                     at_version = version (snd (findings rs ! k))\<rparr>]
             else [])"
    unfolding step by (rule occurrences_aggregate_pkg)
  show "occurrences (snd (aggregate_findings bl (take (Suc k) (findings rs))))
            (name (snd (findings rs ! k))) (license (snd (findings rs ! k))) =
          occurrences (snd (aggregate_findings bl (take k (findings rs))))
            (name (snd (findings rs ! k))) (license (snd (findings rs ! k)))
          @ (if license (snd (findings rs ! k)) = ''Unknown''
             then [\<lparr>repo = fst (findings rs ! k),
                     at_version = version (snd (findings rs ! k))\<rparr>]
             else [])"
    unfolding step by (rule occurrences_aggregate_pkg)
qed

theorem aggregation_map_invariant_witness:
  "unique_keys [(''bar'', [(''GPL-3.0'', [\<lparr>repo = ''C'', at_version = ''3.0.0''\<rparr>])])]
   \<and> unique_keys
        (insertPkgIntoMap ''C'' \<lparr>name = ''bar'', version = ''3.0.0'', license = ''GPL-3.0''\<rparr>
           [(''bar'', [(''GPL-3.0'', [\<lparr>repo = ''C'', at_version = ''3.0.0''\<rparr>])])])
   \<and> occurrences
        (insertPkgIntoMap ''C'' \<lparr>name = ''bar'', version = ''3.0.0'', license = ''GPL-3.0''\<rparr>
           [(''bar'', [(''GPL-3.0'', [\<lparr>repo = ''C'', at_version = ''3.0.0''\<rparr>])])])
        ''bar'' ''GPL-3.0'' =
       [\<lparr>repo = ''C'', at_version = ''3.0.0''\<rparr>, \<lparr>repo = ''C'', at_version = ''3.0.0''\<rparr>]
   \<and> (1::nat) < length (findings
        [\<lparr>of_repo = ''C'',
           packages = [\<lparr>name = ''bar'', version = ''3.0.0'', license = ''GPL-3.0''\<rparr>,
                       \<lparr>name = ''bar'', version = ''3.0.0'', license = ''GPL-3.0''\<rparr>]\<rparr>])
   \<and> occurrences
        (fst (aggregate_findings [''GPL-3.0'']
           (take 1 (findings
              [\<lparr>of_repo = ''C'',
                 packages = [\<lparr>name = ''bar'', version = ''3.0.0'', license = ''GPL-3.0''\<rparr>,
                             \<lparr>name = ''bar'', version = ''3.0.0'', license = ''GPL-3.0''\<rparr>]\<rparr>]))))
        ''bar'' ''GPL-3.0'' =
       [\<lparr>repo = ''C'', at_version = ''3.0.0''\<rparr>]
   \<and> occurrences
        (fst (aggregate_findings [''GPL-3.0'']
           (take (Suc 1) (findings
              [\<lparr>of_repo = ''C'',
                 packages = [\<lparr>name = ''bar'', version = ''3.0.0'', license = ''GPL-3.0''\<rparr>,
                             \<lparr>name = ''bar'', version = ''3.0.0'', license = ''GPL-3.0''\<rparr>]\<rparr>]))))
        ''bar'' ''GPL-3.0'' =
       [\<lparr>repo = ''C'', at_version = ''3.0.0''\<rparr>, \<lparr>repo = ''C'', at_version = ''3.0.0''\<rparr>]
   \<and> occurrences
        (fst (aggregate [''GPL-3.0'']
           [\<lparr>of_repo = ''C'',
              packages = [\<lparr>name = ''bar'', version = ''3.0.0'', license = ''GPL-3.0''\<rparr>,
                          \<lparr>name = ''bar'', version = ''3.0.0'', license = ''GPL-3.0''\<rparr>]\<rparr>]))
        ''bar'' ''GPL-3.0'' =
       [\<lparr>repo = ''C'', at_version = ''3.0.0''\<rparr>, \<lparr>repo = ''C'', at_version = ''3.0.0''\<rparr>]"
proof -
  let ?bar = "\<lparr>name = ''bar'', version = ''3.0.0'', license = ''GPL-3.0''\<rparr>"
  let ?rs = "[\<lparr>of_repo = ''C'', packages = [?bar, ?bar]\<rparr>]"
  let ?m = "[(''bar'', [(''GPL-3.0'', [\<lparr>repo = ''C'', at_version = ''3.0.0''\<rparr>])])]"
  have u: "unique_keys ?m"
    by (simp add: unique_keys_def)
  have o: "occurrences ?m ''bar'' ''GPL-3.0'' = [\<lparr>repo = ''C'', at_version = ''3.0.0''\<rparr>]"
    by (simp add: occurrences_def Map_get_def)
  have f: "findings ?rs = [(''C'', ?bar), (''C'', ?bar)]"
    by (simp add: findings_def)
  note t = aggregation_map_invariant
      [where bl = "[''GPL-3.0'']" and k = 1 and rs = ?rs and m = ?m and r = "''C''"
         and pkg = ?bar and n = "''bar''" and l = "''GPL-3.0''"]
  note t4 = t[THEN conjunct2, THEN conjunct2, THEN conjunct2, THEN conjunct1]
  note t5 = t[THEN conjunct2, THEN conjunct2, THEN conjunct2, THEN conjunct2, THEN conjunct1]
  note t6 = t[THEN conjunct2, THEN conjunct2, THEN conjunct2, THEN conjunct2, THEN conjunct2,
      THEN conjunct1]
  note t8 = t[THEN conjunct2, THEN conjunct2, THEN conjunct2, THEN conjunct2, THEN conjunct2,
      THEN conjunct2, THEN conjunct2, THEN conjunct1]
  note t10 = t[THEN conjunct2, THEN conjunct2, THEN conjunct2, THEN conjunct2, THEN conjunct2,
      THEN conjunct2, THEN conjunct2, THEN conjunct2, THEN conjunct2]
  have len: "(1::nat) < length (findings ?rs)"
    by (simp add: f)
  have c4: "unique_keys (insertPkgIntoMap ''C'' ?bar ?m)"
    using t4 u by simp
  have c5: "occurrences (insertPkgIntoMap ''C'' ?bar ?m) ''bar'' ''GPL-3.0'' =
      [\<lparr>repo = ''C'', at_version = ''3.0.0''\<rparr>, \<lparr>repo = ''C'', at_version = ''3.0.0''\<rparr>]"
    using t5 o by simp
  have c6: "occurrences (fst (aggregate_findings [''GPL-3.0''] (take 1 (findings ?rs))))
      ''bar'' ''GPL-3.0'' = [\<lparr>repo = ''C'', at_version = ''3.0.0''\<rparr>]"
    using t6 by (simp add: f)
  have c8: "occurrences (fst (aggregate [''GPL-3.0''] ?rs)) ''bar'' ''GPL-3.0'' =
      [\<lparr>repo = ''C'', at_version = ''3.0.0''\<rparr>, \<lparr>repo = ''C'', at_version = ''3.0.0''\<rparr>]"
    using t8 by (simp add: f)
  have k: "findings ?rs ! 1 = (''C'', ?bar)"
    by (simp add: f)
  from t10 len
  have "occurrences (fst (aggregate_findings [''GPL-3.0''] (take (Suc 1) (findings ?rs))))
            (name (snd (findings ?rs ! 1))) (license (snd (findings ?rs ! 1))) =
          occurrences (fst (aggregate_findings [''GPL-3.0''] (take 1 (findings ?rs))))
            (name (snd (findings ?rs ! 1))) (license (snd (findings ?rs ! 1)))
          @ (if license (snd (findings ?rs ! 1)) \<in> set [''GPL-3.0'']
             then [\<lparr>repo = fst (findings ?rs ! 1),
                     at_version = version (snd (findings ?rs ! 1))\<rparr>]
             else [])"
    by blast
  then have c10: "occurrences (fst (aggregate_findings [''GPL-3.0''] (take (Suc 1) (findings ?rs))))
      ''bar'' ''GPL-3.0'' =
      [\<lparr>repo = ''C'', at_version = ''3.0.0''\<rparr>, \<lparr>repo = ''C'', at_version = ''3.0.0''\<rparr>]"
    unfolding k using c6 by simp
  from u c4 c5 len c6 c10 c8 show ?thesis
    by (intro conjI)
qed

lemma mset_filter_findings:
  assumes "mset fs' = mset fs"
  shows "mset (filter P fs') = mset (filter P fs)"
  using assms by simp

lemma insert_all_permuted:
  assumes "mset fs' = mset (fs :: (string \<times> PackageData) list)"
  shows "set (package_keys (insert_all [] fs')) = set (package_keys (insert_all [] fs))"
    and "set (license_keys (insert_all [] fs') n) = set (license_keys (insert_all [] fs) n)"
    and "mset (occurrences (insert_all [] fs') n l) = mset (occurrences (insert_all [] fs) n l)"
proof -
  from assms have s: "set fs' = set fs"
    by (rule mset_eq_setD)
  show "set (package_keys (insert_all [] fs')) = set (package_keys (insert_all [] fs))"
    by (simp only: package_keys_insert_all s)
  show "set (license_keys (insert_all [] fs') n) = set (license_keys (insert_all [] fs) n)"
    by (simp only: license_keys_insert_all s)
  show "mset (occurrences (insert_all [] fs') n l) = mset (occurrences (insert_all [] fs) n l)"
    by (simp only: occurrences_insert_all mset_append mset_map mset_filter assms)
qed

text \<open>
  C7. When \<open>rs'\<close> is a permutation of the list \<open>rs\<close> of repository results, the blacklist
  map and the unknown map aggregated from \<open>rs'\<close> have the same set of top-level keys,
  the same set of license keys under every package name, and the same multiset of
  \<open>(repo, version)\<close> occurrences under every package name and license as the maps
  aggregated from \<open>rs\<close>.
\<close>

theorem aggregation_order_independent:
  assumes "mset rs' = mset rs"
  shows
    "set (package_keys (fst (aggregate bl rs'))) = set (package_keys (fst (aggregate bl rs)))
     \<and> set (package_keys (snd (aggregate bl rs'))) = set (package_keys (snd (aggregate bl rs)))
     \<and> (\<forall>n. set (license_keys (fst (aggregate bl rs')) n)
              = set (license_keys (fst (aggregate bl rs)) n))
     \<and> (\<forall>n. set (license_keys (snd (aggregate bl rs')) n)
              = set (license_keys (snd (aggregate bl rs)) n))
     \<and> (\<forall>n l. mset (occurrences (fst (aggregate bl rs')) n l)
                = mset (occurrences (fst (aggregate bl rs)) n l))
     \<and> (\<forall>n l. mset (occurrences (snd (aggregate bl rs')) n l)
                = mset (occurrences (snd (aggregate bl rs)) n l))"
proof -
  from assms have f: "mset (findings rs') = mset (findings rs)"
    by (rule mset_findings)
  have b: "mset (filter (\<lambda>(r, pkg). license pkg \<in> set bl) (findings rs')) =
           mset (filter (\<lambda>(r, pkg). license pkg \<in> set bl) (findings rs))"
    using f by (rule mset_filter_findings)
  have u: "mset (filter (\<lambda>(r, pkg). license pkg = ''Unknown'') (findings rs')) =
           mset (filter (\<lambda>(r, pkg). license pkg = ''Unknown'') (findings rs))"
    using f by (rule mset_filter_findings)
  show ?thesis
    unfolding aggregate_eq fst_conv snd_conv
    using insert_all_permuted[OF b] insert_all_permuted[OF u]
    by (intro conjI allI)
qed

theorem aggregation_order_independent_witness:
  "mset [\<lparr>of_repo = ''D'', packages = [\<lparr>name = ''bar'', version = ''3.0.0'', license = ''GPL-3.0''\<rparr>]\<rparr>,
         \<lparr>of_repo = ''C'', packages = [\<lparr>name = ''bar'', version = ''3.0.0'', license = ''GPL-3.0''\<rparr>]\<rparr>]
   = mset [\<lparr>of_repo = ''C'', packages = [\<lparr>name = ''bar'', version = ''3.0.0'', license = ''GPL-3.0''\<rparr>]\<rparr>,
           \<lparr>of_repo = ''D'', packages = [\<lparr>name = ''bar'', version = ''3.0.0'', license = ''GPL-3.0''\<rparr>]\<rparr>]
   \<and> mset (occurrences (fst (aggregate [''GPL-3.0'']
        [\<lparr>of_repo = ''D'', packages = [\<lparr>name = ''bar'', version = ''3.0.0'', license = ''GPL-3.0''\<rparr>]\<rparr>,
         \<lparr>of_repo = ''C'', packages = [\<lparr>name = ''bar'', version = ''3.0.0'', license = ''GPL-3.0''\<rparr>]\<rparr>]))
        ''bar'' ''GPL-3.0'')
     = mset (occurrences (fst (aggregate [''GPL-3.0'']
        [\<lparr>of_repo = ''C'', packages = [\<lparr>name = ''bar'', version = ''3.0.0'', license = ''GPL-3.0''\<rparr>]\<rparr>,
         \<lparr>of_repo = ''D'', packages = [\<lparr>name = ''bar'', version = ''3.0.0'', license = ''GPL-3.0''\<rparr>]\<rparr>]))
        ''bar'' ''GPL-3.0'')"
proof -
  let ?C = "\<lparr>of_repo = ''C'', packages = [\<lparr>name = ''bar'', version = ''3.0.0'', license = ''GPL-3.0''\<rparr>]\<rparr>"
  let ?D = "\<lparr>of_repo = ''D'', packages = [\<lparr>name = ''bar'', version = ''3.0.0'', license = ''GPL-3.0''\<rparr>]\<rparr>"
  have p: "mset [?D, ?C] = mset [?C, ?D]"
    by (simp add: add_mset_commute)
  from aggregation_order_independent[OF p, of "[''GPL-3.0'']"] p show ?thesis
    by blast
qed

subsection \<open>Ingestion\<close>

lemma resolveLicenseFromNPM_eq:
  "resolveLicenseFromNPM reg n v =
     Fulfilled (case reg n v of Fulfilled (Some l) \<Rightarrow> l | Fulfilled None \<Rightarrow> ''Unknown''
                | Rejected e \<Rightarrow> ''Unknown'')"
  by (simp add: resolveLicenseFromNPM_def then_p_def catch_p_def split: promise.splits option.splits)

lemma resolve_package_eq:
  "resolve_package reg pkg =
     (case licenseConcluded pkg of Some declared \<Rightarrow> []
      | None \<Rightarrow> [(name_as_string pkg, versionInfo pkg)],
      Fulfilled (produced_finding reg pkg))"
  by (simp add: resolve_package_def declared_or_fallback_def resolveLicenseFromNPM_eq then_p_def
      produced_finding_def version_or_missing_def split: option.splits)

lemma promise_all_Fulfilled: "promise_all (map Fulfilled xs) = Fulfilled xs"
  by (induction xs) simp_all

lemma ingest_packages_eq:
  "snd (ingest_packages reg pkgs) = Fulfilled (map (produced_finding reg) (filter keep_package pkgs))"
proof -
  have "map snd (map (resolve_package reg) (filter keep_package pkgs)) =
        map Fulfilled (map (produced_finding reg) (filter keep_package pkgs))"
    by (simp add: resolve_package_eq)
  then show ?thesis
    by (simp only: ingest_packages_def Let_def snd_conv promise_all_Fulfilled)
qed

lemma ingest_repo_Fulfilled:
  "ingest_repo reg orgName rn (Fulfilled pkgs) =
     Fulfilled \<lparr>of_repo = rn, packages = map (produced_finding reg) (filter keep_package pkgs)\<rparr>"
  by (simp add: ingest_repo_def catch_p_def ingest_packages_eq then_p_def)

lemma ingest_repo_Rejected:
  "ingest_repo reg orgName rn (Rejected e) =
     Rejected (Error (''failed to retrieve repos for org '' @ orgName))"
  by (simp add: ingest_repo_def catch_p_def)

lemma replace_spaces_no_space: "CHR '' '' \<notin> set (replace_spaces s)"
  by (auto simp: replace_spaces_def split: if_splits)

lemma replace_spaces_Unknown: "replace_spaces ''Unknown'' = ''Unknown''"
  by (simp add: replace_spaces_def)

lemma produced_finding_no_space: "CHR '' '' \<notin> set (license (produced_finding reg pkg))"
  by (simp add: produced_finding_def replace_spaces_no_space)

lemma ingest_repo_no_space:
  assumes "ingest_repo reg orgName rn sbom = Fulfilled res"
  shows "\<forall>pkg \<in> set (packages res). CHR '' '' \<notin> set (license pkg)"
proof (cases sbom)
  case (Rejected e)
  with assms show ?thesis by (simp add: ingest_repo_Rejected)
next
  case (Fulfilled pkgs)
  with assms have "res = \<lparr>of_repo = rn, packages = map (produced_finding reg) (filter keep_package pkgs)\<rparr>"
    by (simp add: ingest_repo_Fulfilled)
  then show ?thesis
    by (auto simp: produced_finding_no_space)
qed

lemma promise_all_FulfilledD:
  "promise_all ps = Fulfilled xs \<Longrightarrow> ps = map Fulfilled xs"
proof (induction ps arbitrary: xs)
  case Nil
  then show ?case by simp
next
  case (Cons p ps)
  show ?case
  proof (cases p)
    case (Rejected e)
    with Cons.prems show ?thesis by simp
  next
    case (Fulfilled x)
    with Cons.prems obtain ys where ys: "promise_all ps = Fulfilled ys" and xs: "xs = x # ys"
      by (auto split: promise.splits)
    from Cons.IH[OF ys] Fulfilled xs show ?thesis by simp
  qed
qed

lemma ingest_all_no_space:
  assumes "ingest_all reg orgName orgRepos = Fulfilled rs"
  shows "\<forall>(r, pkg) \<in> set (findings rs). CHR '' '' \<notin> set (license pkg)"
proof -
  from assms have m: "map (\<lambda>(rn, sbom). ingest_repo reg orgName rn sbom) orgRepos = map Fulfilled rs"
    unfolding ingest_all_def by (rule promise_all_FulfilledD)
  have "\<forall>pkg \<in> set (packages res). CHR '' '' \<notin> set (license pkg)" if "res \<in> set rs" for res
  proof -
    from that have "Fulfilled res \<in> set (map (\<lambda>(rn, sbom). ingest_repo reg orgName rn sbom) orgRepos)"
      unfolding m by simp
    then obtain rn sbom where "ingest_repo reg orgName rn sbom = Fulfilled res"
      by auto
    then show ?thesis by (rule ingest_repo_no_space)
  qed
  then show ?thesis
    by (auto simp: findings_member)
qed

lemma aggregate_blacklist_cong:
  assumes "\<forall>(r, pkg) \<in> set (findings rs). license pkg \<in> set bl \<longleftrightarrow> license pkg \<in> set bl'"
  shows "aggregate bl rs = aggregate bl' rs"
proof -
  have "filter (\<lambda>(r, pkg). license pkg \<in> set bl) (findings rs) =
        filter (\<lambda>(r, pkg). license pkg \<in> set bl') (findings rs)"
    using assms by (intro filter_cong) auto
  then show ?thesis
    by (simp only: aggregate_eq)
qed

subsection \<open>Claims about license resolution and ingestion\<close>

lemma replace_spaces_nth:
  "i < length s \<Longrightarrow>
     replace_spaces s ! i = (if s ! i = CHR '' '' then CHR ''-'' else s ! i)"
  by (simp add: replace_spaces_def)

text \<open>
  C2. For an SBOM entry whose \<open>licenseConcluded\<close> is present, the callback issues no
  registry query and its promise is fulfilled with a finding whose license is the
  declared string with every space replaced by a hyphen (same length, a hyphen at each
  position of a space, the declared character elsewhere); the result is the same for any
  two registries, and the finding is among the findings of the ingestion when the entry
  passes the filter.
\<close>

theorem declared_license_normalized:
  assumes "licenseConcluded pkg = Some declared"
  shows
    "resolve_package reg pkg =
       ([], Fulfilled \<lparr>name = name_as_string pkg, version = version_or_missing pkg,
                       license = replace_spaces declared\<rparr>)
     \<and> resolve_package reg pkg = resolve_package reg' pkg
     \<and> length (replace_spaces declared) = length declared
     \<and> (\<forall>i < length declared.
           replace_spaces declared ! i
             = (if declared ! i = CHR '' '' then CHR ''-'' else declared ! i))
     \<and> (pkg \<in> set pkgs \<and> keep_package pkg \<longrightarrow>
          (\<exists>ps. snd (ingest_packages reg pkgs) = Fulfilled ps
             \<and> \<lparr>name = name_as_string pkg, version = version_or_missing pkg,
                  license = replace_spaces declared\<rparr> \<in> set ps))"
proof -
  have f: "produced_finding r pkg =
      \<lparr>name = name_as_string pkg, version = version_or_missing pkg,
        license = replace_spaces declared\<rparr>" for r
    using assms by (simp add: produced_finding_def)
  have r: "resolve_package r pkg =
      ([], Fulfilled \<lparr>name = name_as_string pkg, version = version_or_missing pkg,
                      license = replace_spaces declared\<rparr>)" for r
    using assms by (simp add: resolve_package_eq f)
  have i: "\<exists>ps. snd (ingest_packages reg pkgs) = Fulfilled ps
             \<and> \<lparr>name = name_as_string pkg, version = version_or_missing pkg,
                  license = replace_spaces declared\<rparr> \<in> set ps"
    if "pkg \<in> set pkgs" "keep_package pkg"
  proof -
    from that have "produced_finding reg pkg
        \<in> set (map (produced_finding reg) (filter keep_package pkgs))"
      by simp
    then show ?thesis
      unfolding ingest_packages_eq f by blast
  qed
  have l: "length (replace_spaces declared) = length declared"
    by (simp add: replace_spaces_def)
  from r[of reg] r[of reg'] l i show ?thesis
    by (simp add: replace_spaces_nth)
qed

theorem declared_license_normalized_witness:
  "licenseConcluded \<lparr>pkg_name = Some ''left-pad'', versionInfo = Some ''1.0.0'',
                      licenseConcluded = Some ''Apache 2.0''\<rparr> = Some ''Apache 2.0''
   \<and> keep_package \<lparr>pkg_name = Some ''left-pad'', versionInfo = Some ''1.0.0'',
                     licenseConcluded = Some ''Apache 2.0''\<rparr>
   \<and> resolve_package failing_registry
        \<lparr>pkg_name = Some ''left-pad'', versionInfo = Some ''1.0.0'',
          licenseConcluded = Some ''Apache 2.0''\<rparr> =
       ([], Fulfilled \<lparr>name = ''left-pad'', version = ''1.0.0'', license = ''Apache-2.0''\<rparr>)
   \<and> (\<exists>ps. snd (ingest_packages failing_registry
                  [\<lparr>pkg_name = Some ''left-pad'', versionInfo = Some ''1.0.0'',
                     licenseConcluded = Some ''Apache 2.0''\<rparr>]) = Fulfilled ps
          \<and> \<lparr>name = ''left-pad'', version = ''1.0.0'', license = ''Apache-2.0''\<rparr> \<in> set ps)"
proof -
  let ?pkg = "\<lparr>pkg_name = Some ''left-pad'', versionInfo = Some ''1.0.0'',
                licenseConcluded = Some ''Apache 2.0''\<rparr>"
  have d: "licenseConcluded ?pkg = Some ''Apache 2.0''"
    by simp
  have k: "keep_package ?pkg"
    by (simp add: keep_package_def)
  have n: "name_as_string ?pkg = ''left-pad''" and v: "version_or_missing ?pkg = ''1.0.0''"
    and s: "replace_spaces ''Apache 2.0'' = ''Apache-2.0''"
    by (simp_all add: name_as_string_def version_or_missing_def replace_spaces_def)
  from declared_license_normalized[OF d, of failing_registry mit_registry "[?pkg]"] k d
  show ?thesis
    unfolding n v s by simp
qed

text \<open>
  C3. For an entry that passes the filter and has no declared license, when the registry
  lookup is rejected or its metadata has no license field, the ingestion of the
  repository's packages is fulfilled (it is not rejected) and contains the finding of
  this entry with license exactly \<open>"Unknown"\<close>; \<open>resolveLicenseFromNPM\<close> itself is
  fulfilled with \<open>"Unknown"\<close>, and the ingestion of a repository whose SBOM was
  fetched is fulfilled with a result for every registry.
\<close>

theorem fallback_failure_is_unknown:
  assumes "pkg \<in> set pkgs" and "keep_package pkg" and "licenseConcluded pkg = None"
    and "(\<exists>e. reg (name_as_string pkg) (versionInfo pkg) = Rejected e)
         \<or> reg (name_as_string pkg) (versionInfo pkg) = Fulfilled None"
  shows
    "resolveLicenseFromNPM reg (name_as_string pkg) (versionInfo pkg) = Fulfilled ''Unknown''
     \<and> snd (resolve_package reg pkg) =
         Fulfilled \<lparr>name = name_as_string pkg, version = version_or_missing pkg,
                     license = ''Unknown''\<rparr>
     \<and> (\<exists>ps. snd (ingest_packages reg pkgs) = Fulfilled ps
           \<and> length ps = length (filter keep_package pkgs)
           \<and> \<lparr>name = name_as_string pkg, version = version_or_missing pkg,
                license = ''Unknown''\<rparr> \<in> set ps
           \<and> ingest_repo reg orgName rn (Fulfilled pkgs) =
               Fulfilled \<lparr>of_repo = rn, packages = ps\<rparr>)"
proof -
  have u: "(case reg (name_as_string pkg) (versionInfo pkg) of
              Fulfilled (Some l) \<Rightarrow> l | Fulfilled None \<Rightarrow> ''Unknown''
            | Rejected e \<Rightarrow> ''Unknown'') = ''Unknown''"
    using assms(4) by auto
  have f: "produced_finding reg pkg =
      \<lparr>name = name_as_string pkg, version = version_or_missing pkg, license = ''Unknown''\<rparr>"
    using assms(3) u by (simp add: produced_finding_def replace_spaces_Unknown)
  have 1: "resolveLicenseFromNPM reg (name_as_string pkg) (versionInfo pkg) = Fulfilled ''Unknown''"
    by (simp only: resolveLicenseFromNPM_eq u)
  have 2: "snd (resolve_package reg pkg) =
         Fulfilled \<lparr>name = name_as_string pkg, version = version_or_missing pkg,
                     license = ''Unknown''\<rparr>"
    by (simp add: resolve_package_eq f)
  let ?ps = "map (produced_finding reg) (filter keep_package pkgs)"
  have "produced_finding reg pkg \<in> set ?ps"
    using assms(1,2) by simp
  then have 3: "snd (ingest_packages reg pkgs) = Fulfilled ?ps
           \<and> length ?ps = length (filter keep_package pkgs)
           \<and> \<lparr>name = name_as_string pkg, version = version_or_missing pkg,
                license = ''Unknown''\<rparr> \<in> set ?ps
           \<and> ingest_repo reg orgName rn (Fulfilled pkgs) =
               Fulfilled \<lparr>of_repo = rn, packages = ?ps\<rparr>"
    unfolding f by (simp add: ingest_packages_eq ingest_repo_Fulfilled)
  from 1 2 3 show ?thesis by blast
qed

theorem fallback_failure_is_unknown_witness:
  "keep_package \<lparr>pkg_name = Some ''foo-lib'', versionInfo = Some ''2.1.0'',
                  licenseConcluded = None\<rparr>
   \<and> failing_registry ''foo-lib'' (Some ''2.1.0'') = Rejected (Error ''package not found'')
   \<and> ingest_repo failing_registry ''org'' ''B''
        (Fulfilled [\<lparr>pkg_name = Some ''foo-lib'', versionInfo = Some ''2.1.0'',
                      licenseConcluded = None\<rparr>]) =
       Fulfilled \<lparr>of_repo = ''B'',
                   packages = [\<lparr>name = ''foo-lib'', version = ''2.1.0'',
                                license = ''Unknown''\<rparr>]\<rparr>"
proof -
  let ?pkg = "\<lparr>pkg_name = Some ''foo-lib'', versionInfo = Some ''2.1.0'',
                licenseConcluded = None :: string option\<rparr>"
  have k: "keep_package ?pkg"
    by (simp add: keep_package_def)
  have n: "name_as_string ?pkg = ''foo-lib''" and v: "version_or_missing ?pkg = ''2.1.0''"
    by (simp_all add: name_as_string_def version_or_missing_def)
  have r: "(\<exists>e. failing_registry (name_as_string ?pkg) (versionInfo ?pkg) = Rejected e)
         \<or> failing_registry (name_as_string ?pkg) (versionInfo ?pkg) = Fulfilled None"
    by (simp add: failing_registry_def)
  from fallback_failure_is_unknown[of ?pkg "[?pkg]" failing_registry "''org''" "''B''", OF _ k _ r]
  obtain ps where "length ps = length (filter keep_package [?pkg])"
    and "\<lparr>name = name_as_string ?pkg, version = version_or_missing ?pkg,
          license = ''Unknown''\<rparr> \<in> set ps"
    and "ingest_repo failing_registry ''org'' ''B'' (Fulfilled [?pkg]) =
           Fulfilled \<lparr>of_repo = ''B'', packages = ps\<rparr>"
    by auto
  then show ?thesis
    using k n v by (cases ps) (auto simp: failing_registry_def)
qed

text \<open>
  C4, as the code has it. The expression \<open>licenseConcluded ?? (await ...)\<close> yields the
  declared license verbatim whenever it is present, the empty string included, and issues
  no registry query then. Only when the declared license is absent does it query the
  registry once, for the package name and the version, and yield the license field of the
  metadata, or \<open>"Unknown"\<close> when the lookup is rejected or the field is missing.
\<close>

theorem declared_or_fallback_cases:
  "declared_or_fallback reg pkg =
     (case licenseConcluded pkg of
        Some declared \<Rightarrow> ([], Fulfilled declared)
      | None \<Rightarrow>
          ([(name_as_string pkg, versionInfo pkg)],
           Fulfilled (case reg (name_as_string pkg) (versionInfo pkg) of
                        Fulfilled (Some l) \<Rightarrow> l
                      | Fulfilled None \<Rightarrow> ''Unknown''
                      | Rejected e \<Rightarrow> ''Unknown'')))"
  by (simp add: declared_or_fallback_def resolveLicenseFromNPM_eq split: option.splits)

theorem declared_or_fallback_cases_witness:
  "declared_or_fallback mit_registry
     \<lparr>pkg_name = Some ''foo-lib'', versionInfo = Some ''2.1.0'', licenseConcluded = None\<rparr>
   = ([(''foo-lib'', Some ''2.1.0'')], Fulfilled ''MIT'')
   \<and> declared_or_fallback mit_registry
     \<lparr>pkg_name = Some ''foo-lib'', versionInfo = Some ''2.1.0'', licenseConcluded = Some ''''\<rparr>
   = ([], Fulfilled '''')"
  using
    declared_or_fallback_cases
      [of mit_registry
          "\<lparr>pkg_name = Some ''foo-lib'', versionInfo = Some ''2.1.0'', licenseConcluded = None\<rparr>"]
    declared_or_fallback_cases
      [of mit_registry
          "\<lparr>pkg_name = Some ''foo-lib'', versionInfo = Some ''2.1.0'',
             licenseConcluded = Some ''''\<rparr>"]
  by (simp add: mit_registry_def name_as_string_def)

text \<open>
  C4 as stated fails for a declared license that is the empty string: the registry,
  which knows the package as MIT-licensed, is not queried, the concluded license is the
  empty string and not the registry's \<open>MIT\<close>, and the finding's license is the empty
  string.
\<close>

theorem empty_declared_license_counterexample:
  "fst (declared_or_fallback mit_registry
          \<lparr>pkg_name = Some ''foo-lib'', versionInfo = Some ''2.1.0'',
            licenseConcluded = Some ''''\<rparr>) = []
   \<and> snd (declared_or_fallback mit_registry
          \<lparr>pkg_name = Some ''foo-lib'', versionInfo = Some ''2.1.0'',
            licenseConcluded = Some ''''\<rparr>) \<noteq> Fulfilled ''MIT''
   \<and> snd (resolve_package mit_registry
          \<lparr>pkg_name = Some ''foo-lib'', versionInfo = Some ''2.1.0'',
            licenseConcluded = Some ''''\<rparr>) =
       Fulfilled \<lparr>name = ''foo-lib'', version = ''2.1.0'', license = ''''\<rparr>"
  by (simp add: declared_or_fallback_def resolve_package_def then_p_def name_as_string_def
      replace_spaces_def)

text \<open>
  C5. The filter keeps an entry exactly when it has a name (a name that is present and
  not the empty string, which is what the truthiness test \<open>pkg.name &&\<close> checks) and its
  \<open>versionInfo\<close> is not \<open>"main"\<close>. The ingestion of a fetched SBOM is fulfilled with one
  finding per kept entry, in order: the findings' names are the kept entries' names, and
  their versions are the entries' \<open>versionInfo\<close> when present and
  \<open>"Missing version data"\<close> when absent. Entries without a name and entries with
  \<open>versionInfo = "main"\<close> yield no finding.
\<close>

theorem ingestion_filter_and_version:
  "(keep_package pkg \<longleftrightarrow> \<not> no_name pkg \<and> versionInfo pkg \<noteq> Some ''main'')
   \<and> (\<exists>ps. snd (ingest_packages reg pkgs) = Fulfilled ps
         \<and> ingest_repo reg orgName rn (Fulfilled pkgs) = Fulfilled \<lparr>of_repo = rn, packages = ps\<rparr>
         \<and> length ps
             = length (filter (\<lambda>p. \<not> no_name p \<and> versionInfo p \<noteq> Some ''main'') pkgs)
         \<and> map (\<lambda>f. Some (name f)) ps
             = map pkg_name (filter (\<lambda>p. \<not> no_name p \<and> versionInfo p \<noteq> Some ''main'') pkgs)
         \<and> map version ps
             = map (\<lambda>p. case versionInfo p of Some v \<Rightarrow> v | None \<Rightarrow> ''Missing version data'')
                 (filter (\<lambda>p. \<not> no_name p \<and> versionInfo p \<noteq> Some ''main'') pkgs))"
proof -
  have k: "keep_package p \<longleftrightarrow> \<not> no_name p \<and> versionInfo p \<noteq> Some ''main''" for p
    by (auto simp: keep_package_def no_name_def split: option.splits)
  then have fk: "filter (\<lambda>p. \<not> no_name p \<and> versionInfo p \<noteq> Some ''main'') pkgs
      = filter keep_package pkgs"
    by (intro filter_cong) simp_all
  let ?ps = "map (produced_finding reg) (filter keep_package pkgs)"
  have n: "map (\<lambda>f. Some (name f)) ?ps = map pkg_name (filter keep_package pkgs)"
    by (auto simp: produced_finding_def name_as_string_def keep_package_def split: option.splits)
  have v: "map version ?ps
      = map (\<lambda>p. case versionInfo p of Some v \<Rightarrow> v | None \<Rightarrow> ''Missing version data'')
          (filter keep_package pkgs)"
    by (simp add: produced_finding_def version_or_missing_def)
  have "snd (ingest_packages reg pkgs) = Fulfilled ?ps
      \<and> ingest_repo reg orgName rn (Fulfilled pkgs) = Fulfilled \<lparr>of_repo = rn, packages = ?ps\<rparr>
      \<and> length ?ps = length (filter keep_package pkgs)"
    by (simp add: ingest_packages_eq ingest_repo_Fulfilled)
  with n v k[of pkg] show ?thesis
    unfolding fk by blast
qed

lemma ingestion_example:
  "ingest_repo unlicensed_registry ''org'' ''A''
     (Fulfilled
        [\<lparr>pkg_name = None, versionInfo = Some ''0.1.0'', licenseConcluded = Some ''MIT''\<rparr>,
         \<lparr>pkg_name = Some ''com.github.org/A'', versionInfo = Some ''main'',
           licenseConcluded = None\<rparr>,
         \<lparr>pkg_name = Some ''left-pad'', versionInfo = Some ''1.0.0'',
           licenseConcluded = Some ''MIT''\<rparr>,
         \<lparr>pkg_name = Some ''foo-lib'', versionInfo = None, licenseConcluded = None\<rparr>]) =
   Fulfilled
     \<lparr>of_repo = ''A'',
       packages = [\<lparr>name = ''left-pad'', version = ''1.0.0'', license = ''MIT''\<rparr>,
                   \<lparr>name = ''foo-lib'', version = ''Missing version data'',
                     license = ''Unknown''\<rparr>]\<rparr>"
  by (simp add: ingest_repo_Fulfilled keep_package_def produced_finding_def name_as_string_def
      version_or_missing_def replace_spaces_def unlicensed_registry_def)

text \<open>
  C10. For repository results produced by the ingestion and the blacklist split from the
  configured string at its commas: no license key stored in the blacklist map or in the
  unknown map contains a space. A blacklist entry that contains a space is equal to the
  license of no finding, is no license key of the blacklist map, and has no occurrence
  under any package name; the two maps are the same as with all such entries removed
  from the blacklist.
\<close>

theorem license_keys_without_space:
  assumes "ingest_all reg orgName orgRepos = Fulfilled rs"
  shows
    "(\<forall>l \<in> set (all_license_keys (fst (aggregate (parse_blacklist licenseBlacklist) rs)))
           \<union> set (all_license_keys (snd (aggregate (parse_blacklist licenseBlacklist) rs))).
        CHR '' '' \<notin> set l)
     \<and> (\<forall>b \<in> set (parse_blacklist licenseBlacklist). CHR '' '' \<in> set b \<longrightarrow>
          (\<forall>(r, pkg) \<in> set (findings rs). license pkg \<noteq> b)
          \<and> b \<notin> set (all_license_keys (fst (aggregate (parse_blacklist licenseBlacklist) rs)))
          \<and> (\<forall>n. occurrences (fst (aggregate (parse_blacklist licenseBlacklist) rs)) n b = []))
     \<and> aggregate (parse_blacklist licenseBlacklist) rs
         = aggregate (filter (\<lambda>b. CHR '' '' \<notin> set b) (parse_blacklist licenseBlacklist)) rs"
proof -
  let ?bl = "parse_blacklist licenseBlacklist"
  from assms have ns: "\<forall>(r, pkg) \<in> set (findings rs). CHR '' '' \<notin> set (license pkg)"
    by (rule ingest_all_no_space)
  have kb: "set (all_license_keys (fst (aggregate ?bl rs)))
      \<subseteq> {l \<in> (\<lambda>(r, pkg). license pkg) ` set (findings rs). l \<in> set ?bl}"
    unfolding aggregate_eq fst_conv by (rule all_license_keys_filtered)
  have ku: "set (all_license_keys (snd (aggregate ?bl rs)))
      \<subseteq> {l \<in> (\<lambda>(r, pkg). license pkg) ` set (findings rs). l = ''Unknown''}"
    unfolding aggregate_eq snd_conv by (rule all_license_keys_filtered)
  have 1: "\<forall>l \<in> set (all_license_keys (fst (aggregate ?bl rs)))
           \<union> set (all_license_keys (snd (aggregate ?bl rs))). CHR '' '' \<notin> set l"
    using kb ku ns by fastforce
  have 2: "\<forall>b \<in> set ?bl. CHR '' '' \<in> set b \<longrightarrow>
          (\<forall>(r, pkg) \<in> set (findings rs). license pkg \<noteq> b)
          \<and> b \<notin> set (all_license_keys (fst (aggregate ?bl rs)))
          \<and> (\<forall>n. occurrences (fst (aggregate ?bl rs)) n b = [])"
  proof (intro ballI impI)
    fix b assume sp: "CHR '' '' \<in> set b"
    from ns sp have a: "\<forall>(r, pkg) \<in> set (findings rs). license pkg \<noteq> b"
      by fastforce
    from 1 sp have b: "b \<notin> set (all_license_keys (fst (aggregate ?bl rs)))"
      by blast
    from a have "filter (\<lambda>(r, pkg). name pkg = n \<and> license pkg = b \<and> b \<in> set ?bl) (findings rs) = []" for n
      by (auto simp: filter_empty_conv)
    then have c: "\<forall>n. occurrences (fst (aggregate ?bl rs)) n b = []"
      by (simp add: occurrences_aggregate_fst)
    from a b c show "(\<forall>(r, pkg) \<in> set (findings rs). license pkg \<noteq> b)
          \<and> b \<notin> set (all_license_keys (fst (aggregate ?bl rs)))
          \<and> (\<forall>n. occurrences (fst (aggregate ?bl rs)) n b = [])"
      by (intro conjI)
  qed
  have 3: "aggregate ?bl rs = aggregate (filter (\<lambda>b. CHR '' '' \<notin> set b) ?bl) rs"
    using ns by (intro aggregate_blacklist_cong) auto
  from 1 2 3 show ?thesis
    by (intro conjI)
qed

theorem license_keys_without_space_witness:
  "ingest_all mit_registry ''org''
     [(''A'', Fulfilled [\<lparr>pkg_name = Some ''bar'', versionInfo = Some ''3.0.0'',
                          licenseConcluded = Some ''GPL 3.0''\<rparr>])]
   = Fulfilled [\<lparr>of_repo = ''A'',
                  packages = [\<lparr>name = ''bar'', version = ''3.0.0'', license = ''GPL-3.0''\<rparr>]\<rparr>]
   \<and> ''GPL 3.0'' \<in> set (parse_blacklist ''GPL-3.0,GPL 3.0'')
   \<and> CHR '' '' \<in> set ''GPL 3.0''
   \<and> (\<forall>n. occurrences
          (fst (aggregate (parse_blacklist ''GPL-3.0,GPL 3.0'')
             [\<lparr>of_repo = ''A'',
                packages = [\<lparr>name = ''bar'', version = ''3.0.0'', license = ''GPL-3.0''\<rparr>]\<rparr>]))
          n ''GPL 3.0'' = [])
   \<and> ''GPL-3.0'' \<in> set (all_license_keys
          (fst (aggregate (parse_blacklist ''GPL-3.0,GPL 3.0'')
             [\<lparr>of_repo = ''A'',
                packages = [\<lparr>name = ''bar'', version = ''3.0.0'', license = ''GPL-3.0''\<rparr>]\<rparr>])))
   \<and> CHR '' '' \<notin> set ''GPL-3.0''"
proof -
  let ?rs = "[\<lparr>of_repo = ''A'',
                packages = [\<lparr>name = ''bar'', version = ''3.0.0'', license = ''GPL-3.0''\<rparr>]\<rparr>]"
  have i: "ingest_all mit_registry ''org''
     [(''A'', Fulfilled [\<lparr>pkg_name = Some ''bar'', versionInfo = Some ''3.0.0'',
                          licenseConcluded = Some ''GPL 3.0''\<rparr>])] = Fulfilled ?rs"
    by (simp add: ingest_all_def ingest_repo_Fulfilled keep_package_def produced_finding_def
        name_as_string_def version_or_missing_def replace_spaces_def)
  have b: "''GPL 3.0'' \<in> set (parse_blacklist ''GPL-3.0,GPL 3.0'')"
    by (simp add: parse_blacklist_def)
  have s: "CHR '' '' \<in> set ''GPL 3.0''"
    by simp
  have k: "''GPL-3.0'' \<in> set (all_license_keys
          (fst (aggregate (parse_blacklist ''GPL-3.0,GPL 3.0'') ?rs)))"
    by (simp add: parse_blacklist_def aggregate_def aggregate_repo_def aggregate_pkg_def
        insertPkgIntoMap_def Map_has_def Map_get_def all_license_keys_def)
  note t = license_keys_without_space[OF i, of "''GPL-3.0,GPL 3.0''"]
  from t b s
  have o: "\<forall>n. occurrences (fst (aggregate (parse_blacklist ''GPL-3.0,GPL 3.0'') ?rs)) n ''GPL 3.0'' = []"
    by blast
  from t k have n: "CHR '' '' \<notin> set ''GPL-3.0''"
    by blast
  from i b s o k n show ?thesis
    by (intro conjI)
qed

subsection \<open>Claims about the report\<close>

lemma arraifyMap_empty_iff: "arraifyMap m = [] \<longleftrightarrow> m = []"
  by (simp add: arraifyMap_def)

lemma generateMDFromPkgs_blacklisted:
  "generateMDFromPkgs orgUrl bp np blacklisted = generateMDFromPkgs orgUrl bp np' blacklisted"
  by (simp add: generateMDFromPkgs_def)

lemma generateMDFromPkgs_missing:
  "generateMDFromPkgs orgUrl bp np missing = generateMDFromPkgs orgUrl bp' np missing"
  by (simp add: generateMDFromPkgs_def)

text \<open>
  C8. The Markdown report is the banner, followed by a blank-line separator and the
  blacklisted-licenses section exactly when the blacklist map is non-empty, followed by a
  blank-line separator and the missing-licenses section exactly when the unknown map is
  non-empty. When both maps are empty the report is the banner alone. The section of a
  category is its title, the table header, the rows of that category's map, and the
  trailer.
\<close>

theorem report_assembly:
  "mdProblems orgUrl blacklistMap noLicenseMap =
     md_banner
     @ (if blacklistMap = [] then []
        else ''\<newline>\<newline>''
             @ generateMDFromPkgs orgUrl (arraifyMap blacklistMap) (arraifyMap noLicenseMap)
                 blacklisted)
     @ (if noLicenseMap = [] then []
        else ''\<newline>\<newline>''
             @ generateMDFromPkgs orgUrl (arraifyMap blacklistMap) (arraifyMap noLicenseMap)
                 missing)
   \<and> mdProblems orgUrl [] [] = md_banner
   \<and> generateMDFromPkgs orgUrl (arraifyMap blacklistMap) (arraifyMap noLicenseMap) blacklisted =
       ''### Dependencies with blacklisted licenses\<newline>''
       @ ''| Package Name | License | Repositories Affected |\<newline>| --- | --- | --- |\<newline>''
       @ js_join ''\<newline>''
           (map (\<lambda>e. js_join ''\<newline>'' (md_rows orgUrl e)) (arraifyMap blacklistMap))
       @ ''\<newline>\<newline>Please remove these dependencies.''
   \<and> generateMDFromPkgs orgUrl (arraifyMap blacklistMap) (arraifyMap noLicenseMap) missing =
       ''### Dependencies with missing licenses\<newline>''
       @ ''| Package Name | License | Repositories Affected |\<newline>| --- | --- | --- |\<newline>''
       @ js_join ''\<newline>''
           (map (\<lambda>e. js_join ''\<newline>'' (md_rows orgUrl e)) (arraifyMap noLicenseMap))
       @ ''\<newline>\<newline>Please remove these dependencies.''"
proof (intro conjI)
  let ?bp = "arraifyMap blacklistMap" and ?np = "arraifyMap noLicenseMap"
  show "mdProblems orgUrl blacklistMap noLicenseMap =
     md_banner
     @ (if blacklistMap = [] then []
        else ''\<newline>\<newline>'' @ generateMDFromPkgs orgUrl ?bp ?np blacklisted)
     @ (if noLicenseMap = [] then []
        else ''\<newline>\<newline>'' @ generateMDFromPkgs orgUrl ?bp ?np missing)"
    by (simp add: mdProblems_def Let_def arraifyMap_empty_iff)
  show "mdProblems orgUrl [] [] = md_banner"
    by (simp add: mdProblems_def Let_def arraifyMap_def)
  show "generateMDFromPkgs orgUrl ?bp ?np blacklisted =
       ''### Dependencies with blacklisted licenses\<newline>''
       @ ''| Package Name | License | Repositories Affected |\<newline>| --- | --- | --- |\<newline>''
       @ js_join ''\<newline>'' (map (\<lambda>e. js_join ''\<newline>'' (md_rows orgUrl e)) ?bp)
       @ ''\<newline>\<newline>Please remove these dependencies.''"
    by (simp add: generateMDFromPkgs_def category_text_def)
  show "generateMDFromPkgs orgUrl ?bp ?np missing =
       ''### Dependencies with missing licenses\<newline>''
       @ ''| Package Name | License | Repositories Affected |\<newline>| --- | --- | --- |\<newline>''
       @ js_join ''\<newline>'' (map (\<lambda>e. js_join ''\<newline>'' (md_rows orgUrl e)) ?np)
       @ ''\<newline>\<newline>Please remove these dependencies.''"
    by (simp add: generateMDFromPkgs_def category_text_def)
qed

lemma md_row_first: "md_row nm 0 lic links =
    ''| ```'' @ nm @ ''``` | '' @ lic @ '' | '' @ array_to_string links @ '' |''"
  by (simp add: md_row_def)

lemma md_row_subsequent: "0 < idx \<Longrightarrow> md_row nm idx lic links =
    ''| | '' @ lic @ '' | '' @ array_to_string links @ '' |''"
  by (simp add: md_row_def)

lemma slack_row_first: "slack_row nm 0 lic links =
    ''*'' @ nm @ '' - '' @ lic @ ''*\<newline> - '' @ array_to_string links"
  by (simp add: slack_row_def)

lemma slack_row_subsequent: "0 < idx \<Longrightarrow> slack_row nm idx lic links = ''- '' @ array_to_string links"
  by (simp add: slack_row_def)

lemma md_rows_nth:
  assumes "i < length (licenses e)"
  shows "md_rows orgUrl e ! i =
     md_row (entry_name e) i (entry_license (licenses e ! i))
       (map (md_link orgUrl) (repos (licenses e ! i)))"
  using assms by (simp add: md_rows_def nth_enumerate_eq)

lemma slack_rows_nth:
  assumes "i < length (licenses e)"
  shows "slack_rows orgUrl e ! i =
     slack_row (entry_name e) i (entry_license (licenses e ! i))
       (map (slack_link orgUrl) (repos (licenses e ! i)))"
  using assms by (simp add: slack_rows_def nth_enumerate_eq)

text \<open>
  In the Markdown table a package's rows are one per license, in order; the row of
  the first license shows the package name, the license and the links, and every later
  row has a blank first cell, the license and the links.
\<close>

theorem md_rows_row_merge:
  "length (md_rows orgUrl e) = length (licenses e)
   \<and> (\<forall>i < length (licenses e).
         md_rows orgUrl e ! i =
           (if i = 0 then ''| ```'' @ entry_name e @ ''``` | '' else ''| | '')
           @ entry_license (licenses e ! i) @ '' | ''
           @ array_to_string (map (md_link orgUrl) (repos (licenses e ! i))) @ '' |'')"
  by (simp add: md_rows_nth md_row_def) (simp add: md_rows_def)

theorem md_rows_row_merge_witness:
  "(1::nat) < length (licenses
       \<lparr>entry_name = ''foo'',
         licenses = [\<lparr>entry_license = ''GPL-3.0'',
                       repos = [\<lparr>repo = ''A'', at_version = ''1.0.0''\<rparr>]\<rparr>,
                     \<lparr>entry_license = ''AGPL-3.0'',
                       repos = [\<lparr>repo = ''B'', at_version = ''2.0.0''\<rparr>]\<rparr>]\<rparr>)
   \<and> md_rows ''https://github.com/org''
       \<lparr>entry_name = ''foo'',
         licenses = [\<lparr>entry_license = ''GPL-3.0'',
                       repos = [\<lparr>repo = ''A'', at_version = ''1.0.0''\<rparr>]\<rparr>,
                     \<lparr>entry_license = ''AGPL-3.0'',
                       repos = [\<lparr>repo = ''B'', at_version = ''2.0.0''\<rparr>]\<rparr>]\<rparr> ! 1
     = ''| | AGPL-3.0 | [```B```](https://github.com/org/B) @ 2.0.0 |''"
  using md_rows_row_merge
    [of "''https://github.com/org''"
        "\<lparr>entry_name = ''foo'',
          licenses = [\<lparr>entry_license = ''GPL-3.0'',
                        repos = [\<lparr>repo = ''A'', at_version = ''1.0.0''\<rparr>]\<rparr>,
                      \<lparr>entry_license = ''AGPL-3.0'',
                        repos = [\<lparr>repo = ''B'', at_version = ''2.0.0''\<rparr>]\<rparr>]\<rparr>"]
  by (simp add: md_link_def array_to_string_def)

text \<open>
  In the chat markup a package's rows are one per license, in order; the row of the
  first license is the bold header of package name and license followed by the bullet of
  the links, and the row of every later license is the bullet of the links only: it
  carries neither the package name nor the license.
\<close>

theorem slack_rows_row_merge:
  "length (slack_rows orgUrl e) = length (licenses e)
   \<and> (\<forall>i < length (licenses e).
         slack_rows orgUrl e ! i =
           (if i = 0
            then ''*'' @ entry_name e @ '' - '' @ entry_license (licenses e ! i) @ ''*\<newline> - ''
            else ''- '')
           @ array_to_string (map (slack_link orgUrl) (repos (licenses e ! i))))"
  by (simp add: slack_rows_nth slack_row_def) (simp add: slack_rows_def)

theorem slack_rows_row_merge_witness:
  "(1::nat) < length (licenses
       \<lparr>entry_name = ''foo'',
         licenses = [\<lparr>entry_license = ''GPL-3.0'',
                       repos = [\<lparr>repo = ''A'', at_version = ''1.0.0''\<rparr>]\<rparr>,
                     \<lparr>entry_license = ''AGPL-3.0'',
                       repos = [\<lparr>repo = ''B'', at_version = ''2.0.0''\<rparr>]\<rparr>]\<rparr>)
   \<and> slack_rows ''https://github.com/org''
       \<lparr>entry_name = ''foo'',
         licenses = [\<lparr>entry_license = ''GPL-3.0'',
                       repos = [\<lparr>repo = ''A'', at_version = ''1.0.0''\<rparr>]\<rparr>,
                     \<lparr>entry_license = ''AGPL-3.0'',
                       repos = [\<lparr>repo = ''B'', at_version = ''2.0.0''\<rparr>]\<rparr>]\<rparr> ! 1
     = ''- `B` (<https://github.com/org/B|link>) @ 2.0.0''"
  using slack_rows_row_merge
    [of "''https://github.com/org''"
        "\<lparr>entry_name = ''foo'',
          licenses = [\<lparr>entry_license = ''GPL-3.0'',
                        repos = [\<lparr>repo = ''A'', at_version = ''1.0.0''\<rparr>]\<rparr>,
                      \<lparr>entry_license = ''AGPL-3.0'',
                        repos = [\<lparr>repo = ''B'', at_version = ''2.0.0''\<rparr>]\<rparr>]\<rparr>"]
  by (simp add: slack_link_def array_to_string_def)

text \<open>
  C9 at a run with two repositories that depend on the package \<open>foo\<close> under two
  blacklisted licenses: the Markdown row of the second license shows \<open>AGPL-3.0\<close>; the
  chat row of the second license is the bullet of repository \<open>B\<close> alone, and the license
  \<open>AGPL-3.0\<close> is nowhere in the chat message.
\<close>

theorem slack_later_license_row_example:
  "aggregate (parse_blacklist ''GPL-3.0,AGPL-3.0'')
     [\<lparr>of_repo = ''A'',
        packages = [\<lparr>name = ''foo'', version = ''1.0.0'', license = ''GPL-3.0''\<rparr>]\<rparr>,
      \<lparr>of_repo = ''B'',
        packages = [\<lparr>name = ''foo'', version = ''2.0.0'', license = ''AGPL-3.0''\<rparr>]\<rparr>]
   = ([(''foo'', [(''GPL-3.0'', [\<lparr>repo = ''A'', at_version = ''1.0.0''\<rparr>]),
                  (''AGPL-3.0'', [\<lparr>repo = ''B'', at_version = ''2.0.0''\<rparr>])])], [])
   \<and> md_rows ''https://github.com/org''
        \<lparr>entry_name = ''foo'',
          licenses = [\<lparr>entry_license = ''GPL-3.0'',
                        repos = [\<lparr>repo = ''A'', at_version = ''1.0.0''\<rparr>]\<rparr>,
                      \<lparr>entry_license = ''AGPL-3.0'',
                        repos = [\<lparr>repo = ''B'', at_version = ''2.0.0''\<rparr>]\<rparr>]\<rparr>
       = [''| ```foo``` | GPL-3.0 | [```A```](https://github.com/org/A) @ 1.0.0 |'',
          ''| | AGPL-3.0 | [```B```](https://github.com/org/B) @ 2.0.0 |'']
   \<and> slack_rows ''https://github.com/org''
        \<lparr>entry_name = ''foo'',
          licenses = [\<lparr>entry_license = ''GPL-3.0'',
                        repos = [\<lparr>repo = ''A'', at_version = ''1.0.0''\<rparr>]\<rparr>,
                      \<lparr>entry_license = ''AGPL-3.0'',
                        repos = [\<lparr>repo = ''B'', at_version = ''2.0.0''\<rparr>]\<rparr>]\<rparr>
       = [''*foo - GPL-3.0*\<newline> - `A` (<https://github.com/org/A|link>) @ 1.0.0'',
          ''- `B` (<https://github.com/org/B|link>) @ 2.0.0'']
   \<and> slackMdProblems ''https://github.com/org''
        [(''foo'', [(''GPL-3.0'', [\<lparr>repo = ''A'', at_version = ''1.0.0''\<rparr>]),
                    (''AGPL-3.0'', [\<lparr>repo = ''B'', at_version = ''2.0.0''\<rparr>])])] []
       = ''*License Blacklist Scanner Results*\<newline>\<newline>Dependencies with blacklisted licenses:\<newline>\<newline>*foo - GPL-3.0*\<newline> - `A` (<https://github.com/org/A|link>) @ 1.0.0\<newline>- `B` (<https://github.com/org/B|link>) @ 2.0.0\<newline>\<newline>Please remove these dependencies.''"
proof (intro conjI)
  show "aggregate (parse_blacklist ''GPL-3.0,AGPL-3.0'')
     [\<lparr>of_repo = ''A'',
        packages = [\<lparr>name = ''foo'', version = ''1.0.0'', license = ''GPL-3.0''\<rparr>]\<rparr>,
      \<lparr>of_repo = ''B'',
        packages = [\<lparr>name = ''foo'', version = ''2.0.0'', license = ''AGPL-3.0''\<rparr>]\<rparr>]
   = ([(''foo'', [(''GPL-3.0'', [\<lparr>repo = ''A'', at_version = ''1.0.0''\<rparr>]),
                  (''AGPL-3.0'', [\<lparr>repo = ''B'', at_version = ''2.0.0''\<rparr>])])], [])"
    by (simp add: parse_blacklist_def aggregate_def aggregate_repo_def aggregate_pkg_def
        insertPkgIntoMap_def Map_has_def Map_get_def)
  show "md_rows ''https://github.com/org''
        \<lparr>entry_name = ''foo'',
          licenses = [\<lparr>entry_license = ''GPL-3.0'',
                        repos = [\<lparr>repo = ''A'', at_version = ''1.0.0''\<rparr>]\<rparr>,
                      \<lparr>entry_license = ''AGPL-3.0'',
                        repos = [\<lparr>repo = ''B'', at_version = ''2.0.0''\<rparr>]\<rparr>]\<rparr>
       = [''| ```foo``` | GPL-3.0 | [```A```](https://github.com/org/A) @ 1.0.0 |'',
          ''| | AGPL-3.0 | [```B```](https://github.com/org/B) @ 2.0.0 |'']"
    by (simp add: md_rows_def md_row_def md_link_def array_to_string_def)
  show "slack_rows ''https://github.com/org''
        \<lparr>entry_name = ''foo'',
          licenses = [\<lparr>entry_license = ''GPL-3.0'',
                        repos = [\<lparr>repo = ''A'', at_version = ''1.0.0''\<rparr>]\<rparr>,
                      \<lparr>entry_license = ''AGPL-3.0'',
                        repos = [\<lparr>repo = ''B'', at_version = ''2.0.0''\<rparr>]\<rparr>]\<rparr>
       = [''*foo - GPL-3.0*\<newline> - `A` (<https://github.com/org/A|link>) @ 1.0.0'',
          ''- `B` (<https://github.com/org/B|link>) @ 2.0.0'']"
    by (simp add: slack_rows_def slack_row_def slack_link_def array_to_string_def)
  show "slackMdProblems ''https://github.com/org''
        [(''foo'', [(''GPL-3.0'', [\<lparr>repo = ''A'', at_version = ''1.0.0''\<rparr>]),
                    (''AGPL-3.0'', [\<lparr>repo = ''B'', at_version = ''2.0.0''\<rparr>])])] []
       = ''*License Blacklist Scanner Results*\<newline>\<newline>Dependencies with blacklisted licenses:\<newline>\<newline>*foo - GPL-3.0*\<newline> - `A` (<https://github.com/org/A|link>) @ 1.0.0\<newline>- `B` (<https://github.com/org/B|link>) @ 2.0.0\<newline>\<newline>Please remove these dependencies.''"
    by (simp add: slackMdProblems_def Let_def arraifyMap_def generateSlackMdFromPkgs_def
        slack_banner_def category_text_def slack_rows_def slack_row_def slack_link_def
        array_to_string_def)
qed

lemma md_report_example:
  "mdProblems ''https://github.com/org''
        [(''foo'', [(''GPL-3.0'', [\<lparr>repo = ''A'', at_version = ''1.0.0''\<rparr>]),
                    (''AGPL-3.0'', [\<lparr>repo = ''B'', at_version = ''2.0.0''\<rparr>])])] []
   = ''```license-scanner``` has detected dependency licensing issues:\<newline>\<newline>### Dependencies with blacklisted licenses\<newline>| Package Name | License | Repositories Affected |\<newline>| --- | --- | --- |\<newline>| ```foo``` | GPL-3.0 | [```A```](https://github.com/org/A) @ 1.0.0 |\<newline>| | AGPL-3.0 | [```B```](https://github.com/org/B) @ 2.0.0 |\<newline>\<newline>Please remove these dependencies.''"
  by (simp add: mdProblems_def Let_def arraifyMap_def generateMDFromPkgs_def
        md_banner_def category_text_def md_rows_def md_row_def md_link_def
        array_to_string_def)

end
